theory Spec2Isabelle
  imports Complex_Main "HOL-Library.AList"
begin

section \<open>JavaScript numbers\<close>

text \<open>
  A JavaScript number is modelled as a real number or one of the three special values.
  Finite arithmetic is exact (rounding and overflow of doubles are not modelled); the
  special values follow IEEE 754 as JavaScript exposes it. There is one zero, which
  divides like the positive zero: the only zero divisor the engine ever uses is the
  field \<open>averageDocumentLength\<close>, initialised with the literal \<open>0\<close>.
\<close>

datatype jsnum = Fin real | PInf | NInf | NaN

fun jneg :: "jsnum \<Rightarrow> jsnum" where
  "jneg (Fin a) = Fin (- a)"
| "jneg PInf = NInf"
| "jneg NInf = PInf"
| "jneg NaN = NaN"

fun jadd :: "jsnum \<Rightarrow> jsnum \<Rightarrow> jsnum" where
  "jadd (Fin a) (Fin b) = Fin (a + b)"
| "jadd (Fin a) PInf = PInf"
| "jadd (Fin a) NInf = NInf"
| "jadd PInf (Fin b) = PInf"
| "jadd NInf (Fin b) = NInf"
| "jadd PInf PInf = PInf"
| "jadd NInf NInf = NInf"
| "jadd PInf NInf = NaN"
| "jadd NInf PInf = NaN"
| "jadd NaN y = NaN"
| "jadd x NaN = NaN"

definition jsub :: "jsnum \<Rightarrow> jsnum \<Rightarrow> jsnum" where
  "jsub x y = jadd x (jneg y)"

fun jmul :: "jsnum \<Rightarrow> jsnum \<Rightarrow> jsnum" where
  "jmul (Fin a) (Fin b) = Fin (a * b)"
| "jmul (Fin a) PInf = (if a = 0 then NaN else if 0 < a then PInf else NInf)"
| "jmul (Fin a) NInf = (if a = 0 then NaN else if 0 < a then NInf else PInf)"
| "jmul PInf (Fin b) = (if b = 0 then NaN else if 0 < b then PInf else NInf)"
| "jmul NInf (Fin b) = (if b = 0 then NaN else if 0 < b then NInf else PInf)"
| "jmul PInf PInf = PInf"
| "jmul NInf NInf = PInf"
| "jmul PInf NInf = NInf"
| "jmul NInf PInf = NInf"
| "jmul NaN y = NaN"
| "jmul x NaN = NaN"

fun jdiv :: "jsnum \<Rightarrow> jsnum \<Rightarrow> jsnum" where
  "jdiv (Fin a) (Fin b) =
     (if b = 0 then (if a = 0 then NaN else if 0 < a then PInf else NInf) else Fin (a / b))"
| "jdiv (Fin a) PInf = Fin 0"
| "jdiv (Fin a) NInf = Fin 0"
| "jdiv PInf (Fin b) = (if 0 \<le> b then PInf else NInf)"
| "jdiv NInf (Fin b) = (if 0 \<le> b then NInf else PInf)"
| "jdiv PInf PInf = NaN"
| "jdiv NInf NInf = NaN"
| "jdiv PInf NInf = NaN"
| "jdiv NInf PInf = NaN"
| "jdiv NaN y = NaN"
| "jdiv x NaN = NaN"

text \<open>\<open>Math.log\<close>.\<close>

fun jlog :: "jsnum \<Rightarrow> jsnum" where
  "jlog (Fin a) = (if a < 0 then NaN else if a = 0 then NInf else Fin (ln a))"
| "jlog PInf = PInf"
| "jlog NInf = NaN"
| "jlog NaN = NaN"

text \<open>The comparison \<open>x > y\<close>: false whenever an operand is \<open>NaN\<close>.\<close>

fun jgt :: "jsnum \<Rightarrow> jsnum \<Rightarrow> bool" where
  "jgt (Fin a) (Fin b) = (b < a)"
| "jgt PInf (Fin b) = True"
| "jgt PInf NInf = True"
| "jgt (Fin a) NInf = True"
| "jgt x y = False"

text \<open>Truthiness of a number in a condition: \<open>0\<close> and \<open>NaN\<close> are falsy.\<close>

fun truthy :: "jsnum \<Rightarrow> bool" where
  "truthy (Fin a) = (a \<noteq> 0)"
| "truthy PInf = True"
| "truthy NInf = True"
| "truthy NaN = False"

definition num :: "nat \<Rightarrow> jsnum" where
  "num n = Fin (real n)"

section \<open>Strings\<close>

text \<open>
  A string is the list of its UTF-16 code units, each written as its number; \<open>length\<close>
  and indexing count code units, as in JavaScript. \<open>units\<close> writes a string of the
  theory as such a list.
\<close>

type_synonym jsstring = "nat list"

definition units :: "string \<Rightarrow> jsstring" where
  "units s = map of_char s"

text \<open>
  The character class of \<open>SPACE_OR_PUNCTUATION\<close> (line 17), range by range: 168 ranges,
  631 code points, none above \<open>U+FFFF\<close> and none a surrogate. A separator is therefore
  always a whole character, and matching the class on code units is matching it on code
  points.
\<close>

definition separatorRanges :: "(nat \<times> nat) list" where
  "separatorRanges =
     [(0x000A, 0x000A), (0x000D, 0x000D), (0x0020, 0x0023), (0x0025, 0x002A),
      (0x002C, 0x002F), (0x003A, 0x003A), (0x003B, 0x003B), (0x003F, 0x003F),
      (0x0040, 0x0040), (0x005B, 0x005D), (0x005F, 0x005F), (0x007B, 0x007B),
      (0x007D, 0x007D), (0x00A0, 0x00A0), (0x00A1, 0x00A1), (0x00A7, 0x00A7),
      (0x00AB, 0x00AB), (0x00B6, 0x00B6), (0x00B7, 0x00B7), (0x00BB, 0x00BB),
      (0x00BF, 0x00BF), (0x037E, 0x037E), (0x0387, 0x0387), (0x055A, 0x055F),
      (0x0589, 0x0589), (0x058A, 0x058A), (0x05BE, 0x05BE), (0x05C0, 0x05C0),
      (0x05C3, 0x05C3), (0x05C6, 0x05C6), (0x05F3, 0x05F3), (0x05F4, 0x05F4),
      (0x0609, 0x0609), (0x060A, 0x060A), (0x060C, 0x060C), (0x060D, 0x060D),
      (0x061B, 0x061B), (0x061E, 0x061E), (0x061F, 0x061F), (0x066A, 0x066D),
      (0x06D4, 0x06D4), (0x0700, 0x070D), (0x07F7, 0x07F9), (0x0830, 0x083E),
      (0x085E, 0x085E), (0x0964, 0x0964), (0x0965, 0x0965), (0x0970, 0x0970),
      (0x09FD, 0x09FD), (0x0A76, 0x0A76), (0x0AF0, 0x0AF0), (0x0C77, 0x0C77),
      (0x0C84, 0x0C84), (0x0DF4, 0x0DF4), (0x0E4F, 0x0E4F), (0x0E5A, 0x0E5A),
      (0x0E5B, 0x0E5B), (0x0F04, 0x0F12), (0x0F14, 0x0F14), (0x0F3A, 0x0F3D),
      (0x0F85, 0x0F85), (0x0FD0, 0x0FD4), (0x0FD9, 0x0FD9), (0x0FDA, 0x0FDA),
      (0x104A, 0x104F), (0x10FB, 0x10FB), (0x1360, 0x1368), (0x1400, 0x1400),
      (0x166E, 0x166E), (0x1680, 0x1680), (0x169B, 0x169B), (0x169C, 0x169C),
      (0x16EB, 0x16ED), (0x1735, 0x1735), (0x1736, 0x1736), (0x17D4, 0x17D6),
      (0x17D8, 0x17DA), (0x1800, 0x180A), (0x1944, 0x1944), (0x1945, 0x1945),
      (0x1A1E, 0x1A1E), (0x1A1F, 0x1A1F), (0x1AA0, 0x1AA6), (0x1AA8, 0x1AAD),
      (0x1B5A, 0x1B60), (0x1BFC, 0x1BFF), (0x1C3B, 0x1C3F), (0x1C7E, 0x1C7E),
      (0x1C7F, 0x1C7F), (0x1CC0, 0x1CC7), (0x1CD3, 0x1CD3), (0x2000, 0x200A),
      (0x2010, 0x2029), (0x202F, 0x2043), (0x2045, 0x2051), (0x2053, 0x205F),
      (0x207D, 0x207D), (0x207E, 0x207E), (0x208D, 0x208D), (0x208E, 0x208E),
      (0x2308, 0x230B), (0x2329, 0x2329), (0x232A, 0x232A), (0x2768, 0x2775),
      (0x27C5, 0x27C5), (0x27C6, 0x27C6), (0x27E6, 0x27EF), (0x2983, 0x2998),
      (0x29D8, 0x29DB), (0x29FC, 0x29FC), (0x29FD, 0x29FD), (0x2CF9, 0x2CFC),
      (0x2CFE, 0x2CFE), (0x2CFF, 0x2CFF), (0x2D70, 0x2D70), (0x2E00, 0x2E2E),
      (0x2E30, 0x2E4F), (0x3000, 0x3003), (0x3008, 0x3011), (0x3014, 0x301F),
      (0x3030, 0x3030), (0x303D, 0x303D), (0x30A0, 0x30A0), (0x30FB, 0x30FB),
      (0xA4FE, 0xA4FE), (0xA4FF, 0xA4FF), (0xA60D, 0xA60F), (0xA673, 0xA673),
      (0xA67E, 0xA67E), (0xA6F2, 0xA6F7), (0xA874, 0xA877), (0xA8CE, 0xA8CE),
      (0xA8CF, 0xA8CF), (0xA8F8, 0xA8FA), (0xA8FC, 0xA8FC), (0xA92E, 0xA92E),
      (0xA92F, 0xA92F), (0xA95F, 0xA95F), (0xA9C1, 0xA9CD), (0xA9DE, 0xA9DE),
      (0xA9DF, 0xA9DF), (0xAA5C, 0xAA5F), (0xAADE, 0xAADE), (0xAADF, 0xAADF),
      (0xAAF0, 0xAAF0), (0xAAF1, 0xAAF1), (0xABEB, 0xABEB), (0xFD3E, 0xFD3E),
      (0xFD3F, 0xFD3F), (0xFE10, 0xFE19), (0xFE30, 0xFE52), (0xFE54, 0xFE61),
      (0xFE63, 0xFE63), (0xFE68, 0xFE68), (0xFE6A, 0xFE6A), (0xFE6B, 0xFE6B),
      (0xFF01, 0xFF03), (0xFF05, 0xFF0A), (0xFF0C, 0xFF0F), (0xFF1A, 0xFF1A),
      (0xFF1B, 0xFF1B), (0xFF1F, 0xFF1F), (0xFF20, 0xFF20), (0xFF3B, 0xFF3D),
      (0xFF3F, 0xFF3F), (0xFF5B, 0xFF5B), (0xFF5D, 0xFF5D), (0xFF5F, 0xFF65)]"

definition SPACE_OR_PUNCTUATION :: "nat \<Rightarrow> bool" where
  "SPACE_OR_PUNCTUATION c = list_ex (\<lambda>r. fst r \<le> c \<and> c \<le> snd r) separatorRanges"

text \<open>The class \<open>\s\<close>: the white space and the line terminators of ECMAScript.\<close>

definition whiteSpaceRanges :: "(nat \<times> nat) list" where
  "whiteSpaceRanges =
     [(0x0009, 0x000D), (0x0020, 0x0020), (0x00A0, 0x00A0), (0x1680, 0x1680),
      (0x2000, 0x200A), (0x2028, 0x2029), (0x202F, 0x202F), (0x205F, 0x205F),
      (0x3000, 0x3000), (0xFEFF, 0xFEFF)]"

definition is_space :: "nat \<Rightarrow> bool" where
  "is_space c = list_ex (\<lambda>r. fst r \<le> c \<and> c \<le> snd r) whiteSpaceRanges"

text \<open>
  \<open>s.split(SPACE_OR_PUNCTUATION)\<close>: the pieces between the maximal runs of separators,
  the empty pieces at both ends included; \<open>cur\<close> is the piece being read.
\<close>

function split_from :: "jsstring \<Rightarrow> jsstring \<Rightarrow> jsstring list" where
  "split_from cur [] = [cur]"
| "split_from cur (c # cs) =
     (if SPACE_OR_PUNCTUATION c then cur # split_from [] (dropWhile SPACE_OR_PUNCTUATION cs)
      else split_from (cur @ [c]) cs)"
  by pat_completeness auto
termination
  by (relation "measure (\<lambda>(cur, s). length s)")
     (auto simp: le_imp_less_Suc length_dropWhile_le)

definition split :: "jsstring \<Rightarrow> jsstring list" where
  "split s = split_from [] s"

text \<open>The test of \<open>/\/[^\s]*?\.html$/\<close>: a slash, no white space after it, \<open>.html\<close> last.\<close>

definition html_tail :: "jsstring \<Rightarrow> bool" where
  "html_tail cs =
     (5 \<le> length cs \<and> drop (length cs - 5) cs = units ''.html''
      \<and> list_all (\<lambda>c. \<not> is_space c) (take (length cs - 5) cs))"

fun url_path_test :: "jsstring \<Rightarrow> bool" where
  "url_path_test [] = False"
| "url_path_test (c # cs) = ((c = of_char CHR ''/'' \<and> html_tail cs) \<or> url_path_test cs)"

section \<open>Values and the host\<close>

text \<open>
  The value of a property read: a string, a number, or a member that a plain object
  inherits from \<open>Object.prototype\<close> (a built-in function, or the prototype itself for
  \<open>__proto__\<close>), named by its key.
\<close>

datatype jsval = Str jsstring | Num jsnum | Inherited jsstring

text \<open>
  The built-ins of the JavaScript host that the engine calls and whose results the
  source does not determine: \<open>toLowerCase\<close> on strings, \<open>toString\<close> on a number or an
  inherited member, and the conversion of a string to a number.
\<close>

record host =
  toLowerCase :: "jsstring \<Rightarrow> jsstring"
  valueToString :: "jsval \<Rightarrow> jsstring"
  stringToNumber :: "jsstring \<Rightarrow> jsnum"

text \<open>The array \<open>terms\<close> of \<open>addDocument\<close> for one string field value.\<close>

definition terms :: "host \<Rightarrow> jsstring \<Rightarrow> jsstring list" where
  "terms h fieldValue =
     (if url_path_test (toLowerCase h fieldValue) then [toLowerCase h fieldValue]
      else split (toLowerCase h fieldValue))"

text \<open>The terms that pass \<open>if (term)\<close> and reach the index.\<close>

definition tokenize :: "host \<Rightarrow> jsstring \<Rightarrow> jsstring list" where
  "tokenize h fieldValue = filter (\<lambda>term. term \<noteq> []) (terms h fieldValue)"

section \<open>The engine\<close>

text \<open>
  A document is a plain object: the map of its own properties. A read \<open>document[key]\<close>
  and the test \<open>key in document\<close> also find the members of \<open>Object.prototype\<close>.
\<close>

type_synonym document = "jsstring \<Rightarrow> jsval option"

definition objectPrototypeMembers :: "jsstring list" where
  "objectPrototypeMembers =
     [units ''constructor'', units ''hasOwnProperty'', units ''isPrototypeOf'',
      units ''propertyIsEnumerable'', units ''toLocaleString'', units ''toString'',
      units ''valueOf'', units ''__proto__'', units ''__defineGetter__'',
      units ''__defineSetter__'', units ''__lookupGetter__'', units ''__lookupSetter__'']"

definition getProp :: "document \<Rightarrow> jsstring \<Rightarrow> jsval option" where
  "getProp doc key =
     (case doc key of
        Some v \<Rightarrow> Some v
      | None \<Rightarrow> if key \<in> set objectPrototypeMembers then Some (Inherited key) else None)"

record RadiSenseSearchOptions =
  fields' :: "jsstring list"
  idField :: jsstring
  customBoostFactorField :: "jsstring option"
  boost :: "(jsstring \<Rightarrow> jsnum option) option"
  optSpecificDocumentBoosts :: "(jsstring \<times> jsnum) list option"
  initialResults :: "jsstring list option"

text \<open>
  A \<open>Map\<close> is an association list in insertion order: \<open>get\<close> is \<^const>\<open>map_of\<close>,
  \<open>set\<close> is \<^const>\<open>AList.update\<close> (an existing key keeps its place). A \<open>Set\<close> is a
  list in insertion order.
\<close>

record RadiSenseSearchEngine =
  options :: RadiSenseSearchOptions
  documents :: "(jsstring \<times> document) list"
  invertedIndex :: "(jsstring \<times> jsstring list) list"
  documentLengths :: "(jsstring \<times> nat) list"
  totalDocuments :: nat
  averageDocumentLength :: jsnum
  specificDocumentBoosts :: "(jsstring \<times> jsnum) list"

definition set_add :: "'a \<Rightarrow> 'a list \<Rightarrow> 'a list" where
  "set_add x xs = (if x \<in> set xs then xs else xs @ [x])"

definition constructor :: "RadiSenseSearchOptions \<Rightarrow> RadiSenseSearchEngine" where
  "constructor opts =
     \<lparr> options = opts, documents = [], invertedIndex = [], documentLengths = [],
       totalDocuments = 0, averageDocumentLength = Fin 0,
       specificDocumentBoosts =
         (case optSpecificDocumentBoosts opts of
            None \<Rightarrow> []
          | Some bs \<Rightarrow> fold (\<lambda>b m. AList.update (fst b) (snd b) m) bs []) \<rparr>"

datatype error = TypeError

text \<open>
  \<open>document[idField].toString()\<close>: a \<open>TypeError\<close> when the read is \<open>undefined\<close>; a string
  is its own \<open>toString\<close>, any other value is printed by the host.
\<close>

definition documentIdOf :: "host \<Rightarrow> jsstring \<Rightarrow> document \<Rightarrow> error + jsstring" where
  "documentIdOf h idName doc =
     (case getProp doc idName of
        None \<Rightarrow> Inl TypeError
      | Some (Str s) \<Rightarrow> Inr s
      | Some v \<Rightarrow> Inr (valueToString h v))"

definition filteredDocument ::
  "RadiSenseSearchOptions \<Rightarrow> jsstring \<Rightarrow> document \<Rightarrow> document" where
  "filteredDocument opts documentId doc =
     fold (\<lambda>field acc. case getProp doc field of None \<Rightarrow> acc | Some v \<Rightarrow> acc(field \<mapsto> v))
       (fields' opts) [idField opts \<mapsto> Str documentId]"

definition index_term ::
  "jsstring \<Rightarrow> jsstring \<Rightarrow> (jsstring \<times> jsstring list) list
     \<Rightarrow> (jsstring \<times> jsstring list) list" where
  "index_term documentId term idx =
     (if term \<noteq> []
      then AList.update term
             (set_add documentId (case map_of idx term of None \<Rightarrow> [] | Some s \<Rightarrow> s)) idx
      else idx)"

text \<open>One step of the \<open>reduce\<close> over the fields: the running length and the index.\<close>

definition index_field ::
  "host \<Rightarrow> jsstring \<Rightarrow> document \<Rightarrow> jsstring \<Rightarrow> nat \<times> (jsstring \<times> jsstring list) list
     \<Rightarrow> nat \<times> (jsstring \<times> jsstring list) list" where
  "index_field h documentId doc field st =
     (case getProp doc field of
        Some (Str fieldValue) \<Rightarrow>
          (fst st + length fieldValue,
           fold (index_term documentId) (terms h fieldValue) (snd st))
      | _ \<Rightarrow> st)"

text \<open>
  \<open>addDocument\<close> returns the outcome of the call and the engine after it; the exception
  of the first statement leaves before anything is written.
\<close>

definition addDocument ::
  "host \<Rightarrow> RadiSenseSearchEngine \<Rightarrow> document \<Rightarrow> (error + unit) \<times> RadiSenseSearchEngine" where
  "addDocument h e doc =
     (case documentIdOf h (idField (options e)) doc of
        Inl err \<Rightarrow> (Inl err, e)
      | Inr documentId \<Rightarrow>
          (let e1 = e\<lparr> documents :=
                        AList.update documentId (filteredDocument (options e) documentId doc)
                          (documents e) \<rparr>;
               e2 = e1\<lparr> totalDocuments := totalDocuments e1 + 1 \<rparr>;
               st = fold (index_field h documentId doc) (fields' (options e2))
                      (0, invertedIndex e2);
               e3 = e2\<lparr> invertedIndex := snd st \<rparr>
           in (Inr (), e3\<lparr> documentLengths :=
                              AList.update documentId (fst st) (documentLengths e3) \<rparr>)))"

text \<open>A sequence of calls, each on the engine the previous one left.\<close>

fun addDocuments ::
  "host \<Rightarrow> RadiSenseSearchEngine \<Rightarrow> document list \<Rightarrow> RadiSenseSearchEngine" where
  "addDocuments h e [] = e"
| "addDocuments h e (doc # docs) = addDocuments h (snd (addDocument h e doc)) docs"

text \<open>
  For the statements about sequences: the ids of the calls of a sequence that succeed,
  in call order.
\<close>

definition addedIds :: "host \<Rightarrow> jsstring \<Rightarrow> document list \<Rightarrow> jsstring list" where
  "addedIds h idName docs =
     concat (map (\<lambda>doc. case documentIdOf h idName doc of
                          Inl err \<Rightarrow> [] | Inr i \<Rightarrow> [i]) docs)"

section \<open>Scoring\<close>

text \<open>
  \<open>_calculateBM25\<close>. A \<open>Set\<close>'s \<open>size\<close> is the length of its list; a missing length or
  posting set reads as \<open>0\<close> or the empty set.
\<close>

definition calculateBM25 :: "RadiSenseSearchEngine \<Rightarrow> jsstring \<Rightarrow> jsstring \<Rightarrow> jsnum" where
  "calculateBM25 e documentId term =
     (let k = Fin 1.2; b = Fin 0.7; d = Fin 0.5;
          documentLength = (case map_of (documentLengths e) documentId of None \<Rightarrow> 0 | Some l \<Rightarrow> l);
          termDocuments = (case map_of (invertedIndex e) term of None \<Rightarrow> [] | Some s \<Rightarrow> s);
          termFrequency = (if documentId \<in> set termDocuments then 1 else 0 :: nat);
          documentFrequency = length termDocuments;
          IDF = jlog (jadd (jdiv (jadd (jsub (num (totalDocuments e)) (num documentFrequency)) (Fin 0.5))
                                 (jadd (num documentFrequency) (Fin 0.5)))
                           (Fin 1));
          frequencyComponent =
            jadd (jdiv (jmul (num termFrequency) (jadd k (Fin 1)))
                       (jadd (num termFrequency)
                          (jmul k (jadd (jsub (Fin 1) b)
                                     (jmul b (jdiv (num documentLength) (averageDocumentLength e)))))))
                 d
      in jmul IDF frequencyComponent)"

section \<open>Edit distance\<close>

text \<open>
  \<open>_levenshteinDistance\<close>: the matrix is a list of rows, the two \<open>for\<close> loops are folds
  over their index ranges. Every index the loops read lies inside the matrix.
\<close>

definition initialMatrix :: "jsstring \<Rightarrow> jsstring \<Rightarrow> nat list list" where
  "initialMatrix source target =
     map (\<lambda>rowIndex. map (\<lambda>colIndex. if rowIndex = 0 then colIndex else rowIndex)
                         [0..<length source + 1])
       [0..<length target + 1]"

definition fillCell :: "jsstring \<Rightarrow> jsstring \<Rightarrow> nat \<Rightarrow> nat \<Rightarrow> nat list list \<Rightarrow> nat list list" where
  "fillCell source target rowIndex colIndex matrix =
     (let cost = (if source ! (colIndex - 1) = target ! (rowIndex - 1) then 0 else 1 :: nat)
      in matrix[rowIndex := (matrix ! rowIndex)[colIndex :=
           min (min (matrix ! (rowIndex - 1) ! colIndex + 1)
                    (matrix ! rowIndex ! (colIndex - 1) + 1))
               (matrix ! (rowIndex - 1) ! (colIndex - 1) + cost)]])"

definition fillRow :: "jsstring \<Rightarrow> jsstring \<Rightarrow> nat \<Rightarrow> nat list list \<Rightarrow> nat list list" where
  "fillRow source target rowIndex matrix =
     fold (fillCell source target rowIndex) [1..<length source + 1] matrix"

definition levenshteinDistance :: "jsstring \<Rightarrow> jsstring \<Rightarrow> nat" where
  "levenshteinDistance source target =
     fold (fillRow source target) [1..<length target + 1] (initialMatrix source target)
       ! length target ! length source"

section \<open>Search\<close>

text \<open>
  The filter is a pure predicate; on the wildcard path it also receives the \<open>undefined\<close>
  that a missing document is.
\<close>

type_synonym filterFunction = "document option \<Rightarrow> bool"

record searchResult =
  resultId :: jsstring
  resultScore :: jsnum
  resultDocument :: "document option"
  textMatch :: "jsnum option"

text \<open>
  The coercion of a value to a number in a product: the host reads a text, and an
  inherited member (a function or the prototype object) is \<open>NaN\<close>. In a condition every
  inherited member is truthy, a text is truthy when it is not empty.
\<close>

fun toNumber :: "host \<Rightarrow> jsval \<Rightarrow> jsnum" where
  "toNumber h (Num n) = n"
| "toNumber h (Str s) = stringToNumber h s"
| "toNumber h (Inherited m) = NaN"

fun truthyValue :: "jsval \<Rightarrow> bool" where
  "truthyValue (Num n) = truthy n"
| "truthyValue (Str s) = (s \<noteq> [])"
| "truthyValue (Inherited m) = True"

text \<open>\<open>boost[field]\<close>: a read of the plain object \<open>boost\<close>, whose own values are numbers.\<close>

definition boostOf :: "(jsstring \<Rightarrow> jsnum option) \<Rightarrow> jsstring \<Rightarrow> jsval option" where
  "boostOf bm field = getProp (\<lambda>key. map_option Num (bm key)) field"

definition startsWith :: "jsstring \<Rightarrow> jsstring \<Rightarrow> bool" where
  "startsWith s p = (take (length p) s = p)"

text \<open>\<open>Math.min(6, Math.round(length * 0.35))\<close>, halves rounded up.\<close>

definition maxDistance :: "jsstring \<Rightarrow> nat" where
  "maxDistance searchTerm = min 6 ((7 * length searchTerm + 10) div 20)"

definition prefixPenalty :: "jsstring \<Rightarrow> jsstring \<Rightarrow> jsnum" where
  "prefixPenalty searchTerm indexedTerm =
     jdiv (jmul (Fin 0.375) (num (length indexedTerm)))
          (jadd (num (length indexedTerm))
                (jmul (Fin 0.3) (num (length indexedTerm - length searchTerm))))"

definition fuzzyPenalty :: "nat \<Rightarrow> jsstring \<Rightarrow> jsnum" where
  "fuzzyPenalty distance indexedTerm =
     jdiv (jmul (Fin 0.45) (num (length indexedTerm)))
          (jadd (num (length indexedTerm)) (num distance))"

text \<open>
  Lines 190 to 210: the score of one candidate in one field. \<open>boost[field]\<close> and
  \<open>document[customBoostFactorField]\<close> are reads of plain objects.
\<close>

definition candidateScore ::
  "host \<Rightarrow> RadiSenseSearchEngine \<Rightarrow> jsstring \<Rightarrow> jsstring \<Rightarrow> jsnum \<Rightarrow> jsstring
     \<Rightarrow> document \<Rightarrow> jsnum" where
  "candidateScore h e field indexedTerm penaltyFactor documentId doc =
     (let score0 = jmul (calculateBM25 e documentId indexedTerm) penaltyFactor;
          score1 = (case map_of (specificDocumentBoosts e) documentId of
                      None \<Rightarrow> score0
                    | Some specificBoost \<Rightarrow>
                        if truthy specificBoost then jmul score0 specificBoost else score0);
          score2 = (case boost (options e) of
                      None \<Rightarrow> score1
                    | Some bm \<Rightarrow>
                        (case boostOf bm field of
                           None \<Rightarrow> score1
                         | Some fb \<Rightarrow> if truthyValue fb then jmul score1 (toNumber h fb)
                                     else score1))
      in case customBoostFactorField (options e) of
           None \<Rightarrow> score2
         | Some cbf \<Rightarrow>
             if cbf = [] then score2
             else (case getProp doc cbf of
                     None \<Rightarrow> score2
                   | Some v \<Rightarrow> jadd score2 (jmul (toNumber h v) (Fin 0.011))))"

text \<open>
  The state of the loops: the map \<open>results\<close> and the ids of the documents the filter has
  been called on, in call order.
\<close>

type_synonym searchState = "(jsstring \<times> jsnum) list \<times> jsstring list"

definition accumulate :: "jsstring \<Rightarrow> jsnum \<Rightarrow> (jsstring \<times> jsnum) list \<Rightarrow> (jsstring \<times> jsnum) list" where
  "accumulate documentId sc results =
     (let currentScore = (case map_of results documentId of
                            None \<Rightarrow> Fin 0
                          | Some s \<Rightarrow> if truthy s then s else Fin 0)
      in AList.update documentId (jadd currentScore sc) results)"

definition visitDocument ::
  "host \<Rightarrow> RadiSenseSearchEngine \<Rightarrow> filterFunction option \<Rightarrow> jsstring \<Rightarrow> jsstring
     \<Rightarrow> jsnum \<Rightarrow> jsstring \<Rightarrow> searchState \<Rightarrow> searchState" where
  "visitDocument h e filterFunction field indexedTerm penaltyFactor documentId st =
     (case map_of (documents e) documentId of
        None \<Rightarrow> st
      | Some doc \<Rightarrow>
          (case filterFunction of
             None \<Rightarrow>
               (accumulate documentId
                  (candidateScore h e field indexedTerm penaltyFactor documentId doc) (fst st),
                snd st)
           | Some f \<Rightarrow>
               if f (Some doc)
               then (accumulate documentId
                       (candidateScore h e field indexedTerm penaltyFactor documentId doc)
                       (fst st),
                     snd st @ [documentId])
               else (fst st, snd st @ [documentId])))"

definition visitIndexedTerm ::
  "host \<Rightarrow> RadiSenseSearchEngine \<Rightarrow> filterFunction option \<Rightarrow> jsstring \<Rightarrow> jsstring
     \<Rightarrow> jsstring \<times> jsstring list \<Rightarrow> searchState \<Rightarrow> searchState" where
  "visitIndexedTerm h e filterFunction field searchTerm entry st =
     (let indexedTerm = fst entry; docIds = snd entry;
          isPrefixMatch = startsWith indexedTerm searchTerm;
          distance = levenshteinDistance searchTerm indexedTerm;
          isFuzzyMatch = (distance \<le> maxDistance searchTerm \<and> \<not> isPrefixMatch);
          penaltyFactor = (if isPrefixMatch then prefixPenalty searchTerm indexedTerm
                           else if isFuzzyMatch then fuzzyPenalty distance indexedTerm
                           else Fin 1)
      in if isPrefixMatch \<or> isFuzzyMatch
         then fold (visitDocument h e filterFunction field indexedTerm penaltyFactor)
                docIds st
         else st)"

definition searchTerms :: "host \<Rightarrow> jsstring \<Rightarrow> jsstring list" where
  "searchTerms h query = filter (\<lambda>term. length term \<noteq> 0) (split (toLowerCase h query))"

definition visitField ::
  "host \<Rightarrow> RadiSenseSearchEngine \<Rightarrow> filterFunction option \<Rightarrow> jsstring
     \<Rightarrow> jsstring \<Rightarrow> searchState \<Rightarrow> searchState" where
  "visitField h e filterFunction query field st =
     (if customBoostFactorField (options e) = Some field then st
      else fold (\<lambda>searchTerm. fold (visitIndexedTerm h e filterFunction field searchTerm)
                                 (invertedIndex e))
             (searchTerms h query) st)"

text \<open>
  \<open>Array.prototype.sort\<close> with the comparator \<open>(a, b) => b.score - a.score\<close>. A result of
  the comparator that is \<open>NaN\<close> counts as \<open>0\<close>. The sort is stable, and on a consistent
  comparator every stable sort returns the same list; it is modelled by insertion from
  the right, the sorted prefix being held last element first. Where the comparator
  returns \<open>NaN\<close> for some pair it is not consistent and ECMAScript leaves the order to
  the implementation: there the model is one admissible order, which need not be the one
  of a given engine.
\<close>

definition compareScores :: "searchResult \<Rightarrow> searchResult \<Rightarrow> jsnum" where
  "compareScores a b = jsub (resultScore b) (resultScore a)"

fun insertFromRight :: "searchResult \<Rightarrow> searchResult list \<Rightarrow> searchResult list" where
  "insertFromRight x [] = [x]"
| "insertFromRight x (y # ys) =
     (if jgt (compareScores y x) (Fin 0) then y # insertFromRight x ys else x # y # ys)"

definition sortByScore :: "searchResult list \<Rightarrow> searchResult list" where
  "sortByScore xs = rev (fold insertFromRight xs [])"

definition assemble :: "RadiSenseSearchEngine \<Rightarrow> (jsstring \<times> jsnum) list \<Rightarrow> searchResult list" where
  "assemble e results =
     take 34 (filter (\<lambda>r. jgt (resultScore r) (Fin 2.1))
       (sortByScore
          (map (\<lambda>entry. \<lparr> resultId = fst entry, resultScore = snd entry,
                          resultDocument = map_of (documents e) (fst entry),
                          textMatch = Some (snd entry) \<rparr>) results)))"

definition wildcardEntry :: "RadiSenseSearchEngine \<Rightarrow> jsstring \<Rightarrow> searchResult" where
  "wildcardEntry e documentId =
     \<lparr> resultId = documentId, resultScore = Fin 1,
       resultDocument = map_of (documents e) documentId, textMatch = None \<rparr>"

text \<open>\<open>search\<close>, with the list of the filter's calls beside the returned list.\<close>

definition searchRun ::
  "host \<Rightarrow> RadiSenseSearchEngine \<Rightarrow> jsstring \<Rightarrow> filterFunction option
     \<Rightarrow> searchResult list \<times> jsstring list" where
  "searchRun h e query filterFunction =
     (if query = units ''*''
      then (case initialResults (options e) of
              None \<Rightarrow> ([], [])
            | Some ids \<Rightarrow>
                (case filterFunction of
                   None \<Rightarrow> (map (wildcardEntry e) ids, [])
                 | Some f \<Rightarrow>
                     (filter (\<lambda>r. f (resultDocument r)) (map (wildcardEntry e) ids), ids)))
      else (let st = fold (visitField h e filterFunction query) (fields' (options e))
                       ([], [])
            in (assemble e (fst st), snd st)))"

definition search ::
  "host \<Rightarrow> RadiSenseSearchEngine \<Rightarrow> jsstring \<Rightarrow> filterFunction option
     \<Rightarrow> searchResult list" where
  "search h e query filterFunction = fst (searchRun h e query filterFunction)"

definition filterCalls ::
  "host \<Rightarrow> RadiSenseSearchEngine \<Rightarrow> jsstring \<Rightarrow> filterFunction option
     \<Rightarrow> jsstring list" where
  "filterCalls h e query filterFunction = snd (searchRun h e query filterFunction)"

section \<open>Edit distance, as the specification words it\<close>

text \<open>
  One single-character edit: an insertion, a deletion or a substitution at any place of
  the text. \<open>edits n s t\<close>: \<open>n\<close> such edits in a row transform \<open>s\<close> into \<open>t\<close>. The
  Levenshtein distance of \<open>s\<close> and \<open>t\<close> is the least such \<open>n\<close>.
\<close>

inductive edit_step :: "'a list \<Rightarrow> 'a list \<Rightarrow> bool" where
  insertion: "edit_step (u @ v) (u @ c # v)"
| deletion: "edit_step (u @ c # v) (u @ v)"
| substitution: "edit_step (u @ a # v) (u @ b # v)"

inductive edits :: "nat \<Rightarrow> 'a list \<Rightarrow> 'a list \<Rightarrow> bool" where
  edits_none: "edits 0 s s"
| edits_more: "edit_step s u \<Longrightarrow> edits n u t \<Longrightarrow> edits (Suc n) s t"

text \<open>The recurrence of the matrix, read on the texts from their last characters.\<close>

fun lev :: "'a list \<Rightarrow> 'a list \<Rightarrow> nat" where
  "lev [] ys = length ys"
| "lev (x # xs) [] = Suc (length xs)"
| "lev (x # xs) (y # ys) =
     min (min (lev xs (y # ys) + 1) (lev (x # xs) ys + 1))
         (lev xs ys + (if x = y then 0 else 1))"

text \<open>
  For the proof that the loops compute the recurrence: the value the cell of a row and a
  column must hold, and the state of the matrix when the rows below \<open>rowIndex\<close> are
  complete and row \<open>rowIndex\<close> is complete up to column \<open>colIndex\<close>.
\<close>

definition cell :: "jsstring \<Rightarrow> jsstring \<Rightarrow> nat \<Rightarrow> nat \<Rightarrow> nat" where
  "cell source target rowIndex colIndex =
     lev (rev (take colIndex source)) (rev (take rowIndex target))"

definition filled :: "jsstring \<Rightarrow> jsstring \<Rightarrow> nat \<Rightarrow> nat \<Rightarrow> nat list list \<Rightarrow> bool" where
  "filled source target rowIndex colIndex matrix =
     (length matrix = length target + 1
      \<and> (\<forall>r \<le> length target. length (matrix ! r) = length source + 1)
      \<and> (\<forall>r < rowIndex. \<forall>c \<le> length source. matrix ! r ! c = cell source target r c)
      \<and> (\<forall>c \<le> colIndex. matrix ! rowIndex ! c = cell source target rowIndex c)
      \<and> (\<forall>r. rowIndex < r \<and> r \<le> length target \<longrightarrow> matrix ! r ! 0 = r))"

text \<open>
  For the statement about the filter: an indexed term is visited for a search term when
  it is a prefix match or a fuzzy match; \<open>visits\<close> lists, in the order of the loops, the
  stored document ids of the posting sets visited, once for every searched field, search
  term and matching indexed term.
\<close>

definition termMatches :: "jsstring \<Rightarrow> jsstring \<Rightarrow> bool" where
  "termMatches searchTerm indexedTerm =
     (startsWith indexedTerm searchTerm
      \<or> levenshteinDistance searchTerm indexedTerm \<le> maxDistance searchTerm)"

definition storedIds :: "RadiSenseSearchEngine \<Rightarrow> jsstring list \<Rightarrow> jsstring list" where
  "storedIds e docIds = filter (\<lambda>documentId. map_of (documents e) documentId \<noteq> None) docIds"

definition visits :: "host \<Rightarrow> RadiSenseSearchEngine \<Rightarrow> jsstring \<Rightarrow> jsstring list" where
  "visits h e query =
     concat (map (\<lambda>field.
         if customBoostFactorField (options e) = Some field then []
         else concat (map (\<lambda>searchTerm.
                concat (map (\<lambda>entry.
                   if termMatches searchTerm (fst entry) then storedIds e (snd entry) else [])
                 (invertedIndex e)))
              (searchTerms h query)))
       (fields' (options e)))"

section \<open>The score of a candidate, as the specification words it\<close>

text \<open>
  The quantities of the BM25+ formula: the posting set of a term and its size \<open>df\<close>,
  the presence \<open>tf\<close>, the stored length of a document, \<open>idf\<close> and \<open>freq\<close>, with
  \<open>k = 1.2\<close>, \<open>b = 0.7\<close>, \<open>delta = 0.5\<close>, \<open>N = totalDocuments\<close> and the average length
  the engine holds.
\<close>

definition postingSet :: "RadiSenseSearchEngine \<Rightarrow> jsstring \<Rightarrow> jsstring list" where
  "postingSet e term = (case map_of (invertedIndex e) term of None \<Rightarrow> [] | Some s \<Rightarrow> s)"

definition storedLength :: "RadiSenseSearchEngine \<Rightarrow> jsstring \<Rightarrow> nat" where
  "storedLength e documentId =
     (case map_of (documentLengths e) documentId of None \<Rightarrow> 0 | Some l \<Rightarrow> l)"

definition tf :: "RadiSenseSearchEngine \<Rightarrow> jsstring \<Rightarrow> jsstring \<Rightarrow> nat" where
  "tf e documentId term = (if documentId \<in> set (postingSet e term) then 1 else 0)"

definition df :: "RadiSenseSearchEngine \<Rightarrow> jsstring \<Rightarrow> nat" where
  "df e term = length (postingSet e term)"

definition idf :: "RadiSenseSearchEngine \<Rightarrow> jsstring \<Rightarrow> jsnum" where
  "idf e term =
     jlog (jadd (jdiv (jadd (jsub (num (totalDocuments e)) (num (df e term))) (Fin 0.5))
                      (jadd (num (df e term)) (Fin 0.5)))
                (Fin 1))"

definition freq :: "RadiSenseSearchEngine \<Rightarrow> jsstring \<Rightarrow> jsstring \<Rightarrow> jsnum" where
  "freq e documentId term =
     jadd (jdiv (jmul (num (tf e documentId term)) (jadd (Fin 1.2) (Fin 1)))
                (jadd (num (tf e documentId term))
                   (jmul (Fin 1.2)
                      (jadd (jsub (Fin 1) (Fin 0.7))
                         (jmul (Fin 0.7)
                            (jdiv (num (storedLength e documentId))
                                  (averageDocumentLength e)))))))
          (Fin 0.5)"

text \<open>
  The contribution of claim C5 as it is stated: every configured boost multiplies, and
  the custom boost field adds whenever it is configured and present.
\<close>

definition claimedContribution ::
  "host \<Rightarrow> RadiSenseSearchEngine \<Rightarrow> jsstring \<Rightarrow> jsstring \<Rightarrow> jsnum \<Rightarrow> jsstring
     \<Rightarrow> document \<Rightarrow> jsnum" where
  "claimedContribution h e field indexedTerm p documentId doc =
     (let base = jmul (jmul (idf e indexedTerm) (freq e documentId indexedTerm)) p;
          withDocumentBoost = (case map_of (specificDocumentBoosts e) documentId of
                                 None \<Rightarrow> base | Some sb \<Rightarrow> jmul base sb);
          withFieldBoost = (case boost (options e) of
                              None \<Rightarrow> withDocumentBoost
                            | Some bm \<Rightarrow> (case boostOf bm field of
                                           None \<Rightarrow> withDocumentBoost
                                         | Some fb \<Rightarrow> jmul withDocumentBoost (toNumber h fb)))
      in case customBoostFactorField (options e) of
           None \<Rightarrow> withFieldBoost
         | Some cbf \<Rightarrow> (case getProp doc cbf of
                          None \<Rightarrow> withFieldBoost
                        | Some cb \<Rightarrow> jadd withFieldBoost (jmul (toNumber h cb) (Fin 0.011))))"

text \<open>
  The contribution as the code computes it: a boost multiplies when it is configured and
  truthy (neither \<open>0\<close> nor \<open>NaN\<close>), and the custom boost field adds when its configured
  name is not empty and the document has it.
\<close>

definition amendedContribution ::
  "host \<Rightarrow> RadiSenseSearchEngine \<Rightarrow> jsstring \<Rightarrow> jsstring \<Rightarrow> jsnum \<Rightarrow> jsstring
     \<Rightarrow> document \<Rightarrow> jsnum" where
  "amendedContribution h e field indexedTerm p documentId doc =
     (let base = jmul (jmul (idf e indexedTerm) (freq e documentId indexedTerm)) p;
          withDocumentBoost = (case map_of (specificDocumentBoosts e) documentId of
                                 None \<Rightarrow> base
                               | Some sb \<Rightarrow> if truthy sb then jmul base sb else base);
          withFieldBoost = (case boost (options e) of
                              None \<Rightarrow> withDocumentBoost
                            | Some bm \<Rightarrow> (case boostOf bm field of
                                           None \<Rightarrow> withDocumentBoost
                                         | Some fb \<Rightarrow>
                                             if truthyValue fb
                                             then jmul withDocumentBoost (toNumber h fb)
                                             else withDocumentBoost))
      in case customBoostFactorField (options e) of
           None \<Rightarrow> withFieldBoost
         | Some cbf \<Rightarrow>
             if cbf = [] then withFieldBoost
             else (case getProp doc cbf of
                     None \<Rightarrow> withFieldBoost
                   | Some cb \<Rightarrow> jadd withFieldBoost (jmul (toNumber h cb) (Fin 0.011))))"

section \<open>Example engines\<close>

text \<open>
  The host of the examples. Its \<open>toLowerCase\<close> is JavaScript's on the texts of code
  units below 256, which all texts of the examples are; it prints an inherited member
  as a built-in function is printed (\<open>constructor\<close> is the function \<open>Object\<close>). The
  examples print no number and convert no text to a number.
\<close>

definition lowerUnit :: "nat \<Rightarrow> nat" where
  "lowerUnit c =
     (if (65 \<le> c \<and> c \<le> 90) \<or> (192 \<le> c \<and> c \<le> 214) \<or> (216 \<le> c \<and> c \<le> 222)
      then c + 32 else c)"

definition examplePrint :: "jsval \<Rightarrow> jsstring" where
  "examplePrint v =
     (case v of
        Str s \<Rightarrow> s
      | Num n \<Rightarrow> []
      | Inherited m \<Rightarrow>
          if m = units ''__proto__'' then units ''[object Object]''
          else units ''function '' @ (if m = units ''constructor'' then units ''Object'' else m)
               @ units ''() { [native code] }'')"

definition exampleHost :: host where
  "exampleHost =
     \<lparr> toLowerCase = map lowerUnit, valueToString = examplePrint,
       stringToNumber = (\<lambda>s. NaN) \<rparr>"

text \<open>
  The engine of the scenarios: the fields \<open>title\<close> and \<open>body\<close>, the id field \<open>path\<close>,
  the initial results \<open>/a\<close> and \<open>/b\<close>, and the one document \<open>/a\<close>.
\<close>

definition scenarioOptions :: RadiSenseSearchOptions where
  "scenarioOptions =
     \<lparr> fields' = [units ''title'', units ''body''], idField = units ''path'',
       customBoostFactorField = None, boost = None, optSpecificDocumentBoosts = None,
       initialResults = Some [units ''/a'', units ''/b''] \<rparr>"

definition scenarioDocument :: document where
  "scenarioDocument =
     [units ''path'' \<mapsto> Str (units ''/a''), units ''title'' \<mapsto> Str (units ''Hello''),
      units ''body'' \<mapsto> Str (units ''world'')]"

definition scenarioEngine :: RadiSenseSearchEngine where
  "scenarioEngine = addDocuments exampleHost (constructor scenarioOptions) [scenarioDocument]"

definition acceptAll :: filterFunction where
  "acceptAll doc = True"

text \<open>
  An engine with a custom boost field and a specific boost of \<open>0\<close> for its one document,
  and the same engine with no specific boost.
\<close>

definition rankedOptions :: "(jsstring \<times> jsnum) list option \<Rightarrow> RadiSenseSearchOptions" where
  "rankedOptions boosts =
     \<lparr> fields' = [units ''title'', units ''rank''], idField = units ''path'',
       customBoostFactorField = Some (units ''rank''), boost = None,
       optSpecificDocumentBoosts = boosts, initialResults = None \<rparr>"

definition rankedDocument :: "jsstring \<Rightarrow> real \<Rightarrow> document" where
  "rankedDocument path rank =
     [units ''path'' \<mapsto> Str path, units ''title'' \<mapsto> Str (units ''foo''),
      units ''rank'' \<mapsto> Num (Fin rank)]"

definition zeroBoostEngine :: RadiSenseSearchEngine where
  "zeroBoostEngine =
     addDocuments exampleHost (constructor (rankedOptions (Some [(units ''/a'', Fin 0)])))
       [rankedDocument (units ''/a'') 1000]"

definition noBoostEngine :: RadiSenseSearchEngine where
  "noBoostEngine =
     addDocuments exampleHost (constructor (rankedOptions None))
       [rankedDocument (units ''/a'') 1000]"

text \<open>
  An engine in which the document \<open>/y\<close> is added twice, the second time without its
  title: it stays in the posting set of \<open>foo\<close> and its stored length becomes \<open>0\<close>.
\<close>

definition readdedEngine :: RadiSenseSearchEngine where
  "readdedEngine =
     addDocuments exampleHost (constructor (rankedOptions None))
       [rankedDocument (units ''/x'') 300, rankedDocument (units ''/y'') 1,
        [units ''path'' \<mapsto> Str (units ''/y''), units ''rank'' \<mapsto> Num (Fin 1)],
        rankedDocument (units ''/z'') 500]"

text \<open>
  An engine whose id field is named \<open>constructor\<close>, a member that every plain object
  inherits.
\<close>

definition inheritedIdOptions :: RadiSenseSearchOptions where
  "inheritedIdOptions =
     \<lparr> fields' = [units ''title''], idField = units ''constructor'',
       customBoostFactorField = None, boost = None, optSpecificDocumentBoosts = None,
       initialResults = None \<rparr>"

definition titleOnlyDocument :: document where
  "titleOnlyDocument = [units ''title'' \<mapsto> Str (units ''Hello'')]"

section \<open>The property of \<open>toLowerCase\<close> that the tokenizer relies on\<close>


section \<open>Strings\<close>

lemma units_inject [simp]: "units s = units t \<longleftrightarrow> s = t"
proof (induction s arbitrary: t)
  case Nil
  show ?case by (cases t) (simp_all add: units_def)
next
  case (Cons c s)
  show ?case
  proof (cases t)
    case Nil
    then show ?thesis by (simp add: units_def)
  next
    case (Cons d t')
    then show ?thesis using Cons.IH [of t'] by (simp add: units_def)
  qed
qed

lemma length_units [simp]: "length (units s) = length s"
  by (simp add: units_def)

lemma units_Nil [simp]: "units s = [] \<longleftrightarrow> s = []"
  by (simp add: units_def)

section \<open>The tokenizer\<close>





lemmas string_defs =
  units_def SPACE_OR_PUNCTUATION_def separatorRanges_def is_space_def whiteSpaceRanges_def
  html_tail_def split_def terms_def tokenize_def exampleHost_def lowerUnit_def








section \<open>Ingest\<close>

lemma addDocument_options [simp]: "options (snd (addDocument h e doc)) = options e"
  by (simp add: addDocument_def Let_def split: sum.splits)

lemma addDocuments_options [simp]: "options (addDocuments h e docs) = options e"
  by (induction docs arbitrary: e) simp_all

lemma addDocument_boosts [simp]:
  "specificDocumentBoosts (snd (addDocument h e doc)) = specificDocumentBoosts e"
  by (simp add: addDocument_def Let_def split: sum.splits)

lemma addDocuments_boosts [simp]:
  "specificDocumentBoosts (addDocuments h e docs) = specificDocumentBoosts e"
  by (induction docs arbitrary: e) simp_all

lemma addDocument_average [simp]:
  "averageDocumentLength (snd (addDocument h e doc)) = averageDocumentLength e"
  by (simp add: addDocument_def Let_def split: sum.splits)

lemma addDocuments_average [simp]:
  "averageDocumentLength (addDocuments h e docs) = averageDocumentLength e"
  by (induction docs arbitrary: e) simp_all

lemma addedIds_Cons:
  "addedIds h idName (doc # docs) =
     (case documentIdOf h idName doc of Inl err \<Rightarrow> [] | Inr i \<Rightarrow> [i]) @ addedIds h idName docs"
  by (simp add: addedIds_def)

lemma addDocument_total:
  "totalDocuments (snd (addDocument h e doc)) =
     totalDocuments e + length (addedIds h (idField (options e)) [doc])"
  by (simp add: addDocument_def addedIds_def Let_def split: sum.splits)

lemma addDocuments_total:
  "totalDocuments (addDocuments h e docs) =
     totalDocuments e + length (addedIds h (idField (options e)) docs)"
proof (induction docs arbitrary: e)
  case Nil
  show ?case by (simp add: addedIds_def)
next
  case (Cons doc docs)
  show ?case
    by (simp add: Cons.IH addDocument_total addedIds_Cons [of _ _ doc docs] addedIds_def
          split: sum.splits)
qed

lemma keys_update: "fst ` set (AList.update k v al) = insert k (fst ` set al)"
  by (induction al) auto

lemma addDocument_keys:
  "fst ` set (documents (snd (addDocument h e doc))) =
     fst ` set (documents e) \<union> set (addedIds h (idField (options e)) [doc])"
  by (simp add: addDocument_def addedIds_def Let_def keys_update split: sum.splits)

lemma addDocument_distinct:
  "distinct (map fst (documents e)) \<Longrightarrow>
   distinct (map fst (documents (snd (addDocument h e doc))))"
  by (simp add: addDocument_def Let_def distinct_update split: sum.splits)

lemma addedIds_append:
  "set (addedIds h idName (doc # docs)) = set (addedIds h idName [doc]) \<union> set (addedIds h idName docs)"
  by (simp add: addedIds_def)

lemma addDocuments_keys:
  "fst ` set (documents (addDocuments h e docs)) =
     fst ` set (documents e) \<union> set (addedIds h (idField (options e)) docs)"
proof (induction docs arbitrary: e)
  case Nil
  show ?case by (simp add: addedIds_def)
next
  case (Cons doc docs)
  have "fst ` set (documents (addDocuments h e (doc # docs))) =
          fst ` set (documents (snd (addDocument h e doc)))
            \<union> set (addedIds h (idField (options e)) docs)"
    by (simp add: Cons.IH)
  also have "\<dots> = fst ` set (documents e)
            \<union> (set (addedIds h (idField (options e)) [doc])
                 \<union> set (addedIds h (idField (options e)) docs))"
    by (simp only: addDocument_keys Un_assoc)
  finally show ?case
    by (simp only: addedIds_append [of h _ doc docs])
qed

lemma addDocuments_distinct:
  "distinct (map fst (documents e)) \<Longrightarrow>
   distinct (map fst (documents (addDocuments h e docs)))"
  by (induction docs arbitrary: e) (simp_all add: addDocument_distinct)

lemma addDocuments_size:
  "length (documents (addDocuments h (constructor opts) docs)) =
     card (set (addedIds h (idField opts) docs))"
proof -
  let ?e = "addDocuments h (constructor opts) docs"
  have d: "distinct (map fst (documents ?e))"
    by (rule addDocuments_distinct) (simp add: constructor_def)
  have "length (documents ?e) = length (map fst (documents ?e))" by simp
  also have "\<dots> = card (set (map fst (documents ?e)))"
    using d by (simp only: distinct_card)
  also have "\<dots> = card (fst ` set (documents ?e))"
    by simp
  also have "\<dots> = card (set (addedIds h (idField opts) docs))"
    by (simp only: addDocuments_keys) (simp add: constructor_def)
  finally show ?thesis .
qed

subsection \<open>Posting sets hold no id twice\<close>

text \<open>
  A posting set is a \<open>Set\<close>, modelled as a list: in every engine that ingest builds, the
  list of a posting set is distinct, so that its length is the size of the set.
\<close>

lemma set_add_distinct: "distinct xs \<Longrightarrow> distinct (set_add x xs)"
  by (simp add: set_add_def)

lemma index_term_distinct:
  assumes "\<forall>p \<in> set idx. distinct (snd p)"
  shows "\<forall>p \<in> set (index_term documentId term idx). distinct (snd p)"
proof (cases "term = []")
  case True
  then show ?thesis using assms by (simp add: index_term_def)
next
  case False
  let ?old = "case map_of idx term of None \<Rightarrow> [] | Some s \<Rightarrow> s"
  have "distinct ?old"
  proof (cases "map_of idx term")
    case None
    then show ?thesis by simp
  next
    case (Some s)
    then have "(term, s) \<in> set idx" by (rule map_of_SomeD)
    then have "distinct s" using assms by fastforce
    then show ?thesis using Some by simp
  qed
  then have "distinct (set_add documentId ?old)"
    by (rule set_add_distinct)
  moreover have "set (AList.update term (set_add documentId ?old) idx)
                   \<subseteq> insert (term, set_add documentId ?old) (set idx)"
    by (induction idx) auto
  ultimately show ?thesis
    using False assms by (auto simp: index_term_def)
qed

lemma index_terms_distinct:
  "\<forall>p \<in> set idx. distinct (snd p) \<Longrightarrow>
   \<forall>p \<in> set (fold (index_term documentId) ts idx). distinct (snd p)"
proof (induction ts arbitrary: idx)
  case Nil
  then show ?case by simp
next
  case (Cons t ts)
  show ?case
    using Cons.IH [OF index_term_distinct [OF Cons.prems]] by simp
qed

lemma index_field_distinct:
  "\<forall>p \<in> set (snd st). distinct (snd p) \<Longrightarrow>
   \<forall>p \<in> set (snd (index_field h documentId doc field st)). distinct (snd p)"
  by (simp add: index_field_def index_terms_distinct split: option.splits jsval.splits)

lemma index_fields_distinct:
  "\<forall>p \<in> set (snd st). distinct (snd p) \<Longrightarrow>
   \<forall>p \<in> set (snd (fold (index_field h documentId doc) fs st)). distinct (snd p)"
proof (induction fs arbitrary: st)
  case Nil
  then show ?case by simp
next
  case (Cons f fs)
  show ?case
    using Cons.IH [OF index_field_distinct [OF Cons.prems]] by simp
qed

lemma addDocument_postings_distinct:
  assumes "\<forall>p \<in> set (invertedIndex e). distinct (snd p)"
  shows "\<forall>p \<in> set (invertedIndex (snd (addDocument h e doc))). distinct (snd p)"
proof (cases "documentIdOf h (idField (options e)) doc")
  case (Inl err)
  then show ?thesis using assms by (simp add: addDocument_def)
next
  case (Inr documentId)
  have "\<forall>p \<in> set (snd (fold (index_field h documentId doc) (fields' (options e))
                             (0, invertedIndex e))). distinct (snd p)"
    using assms by (intro index_fields_distinct) simp
  then show ?thesis
    using Inr by (simp add: addDocument_def Let_def)
qed

lemma ingest_postings_distinct:
  "\<forall>p \<in> set (invertedIndex (addDocuments h (constructor opts) docs)). distinct (snd p)"
proof -
  have "\<forall>p \<in> set (invertedIndex e). distinct (snd p) \<Longrightarrow>
        \<forall>p \<in> set (invertedIndex (addDocuments h e docs)). distinct (snd p)" for e
  proof (induction docs arbitrary: e)
    case Nil
    then show ?case by simp
  next
    case (Cons doc docs)
    show ?case
      using Cons.IH [OF addDocument_postings_distinct [OF Cons.prems]] by simp
  qed
  from this [of "constructor opts"] show ?thesis
    by (simp add: constructor_def)
qed

text \<open>
  C9, as the code reads the id. When the read \<open>document[idField]\<close> is \<open>undefined\<close>,
  that is when the document has no property of that name, own or inherited from
  \<open>Object.prototype\<close>, \<open>addDocument\<close> fails with a \<open>TypeError\<close> and the engine after the
  call is the engine before it: the store, the index, the length table and the counter
  are untouched.
\<close>

theorem addDocument_missing_id:
  assumes "getProp doc (idField (options e)) = None"
  shows "addDocument h e doc = (Inl TypeError, e)"
  using assms by (simp add: addDocument_def documentIdOf_def)

theorem addDocument_missing_id_witness:
  "getProp titleOnlyDocument (idField (options (constructor scenarioOptions))) = None
   \<and> addDocument exampleHost (constructor scenarioOptions) titleOnlyDocument
       = (Inl TypeError, constructor scenarioOptions)"
proof -
  have absent: "getProp titleOnlyDocument (idField (options (constructor scenarioOptions))) = None"
    by (simp add: getProp_def titleOnlyDocument_def constructor_def scenarioOptions_def
          objectPrototypeMembers_def)
  show ?thesis
    using absent
      addDocument_missing_id [of titleOnlyDocument "constructor scenarioOptions" exampleHost]
    by simp
qed

text \<open>
  C9 as the claim states it fails when the id field is named like a member of
  \<open>Object.prototype\<close>. With the id field \<open>constructor\<close>, a document that has only a
  title has no such field of its own, yet the read finds the inherited function: the
  call succeeds, and the document is stored and counted under the text of that
  function.
\<close>

theorem addDocument_inherited_id_counterexample:
  "titleOnlyDocument (idField inheritedIdOptions) = None
   \<and> fst (addDocument exampleHost (constructor inheritedIdOptions) titleOnlyDocument) = Inr ()
   \<and> totalDocuments
        (snd (addDocument exampleHost (constructor inheritedIdOptions) titleOnlyDocument)) = 1
   \<and> map fst (documents
        (snd (addDocument exampleHost (constructor inheritedIdOptions) titleOnlyDocument)))
       = [units ''function Object() { [native code] }'']"
  by (simp add: addDocument_def documentIdOf_def getProp_def titleOnlyDocument_def
        inheritedIdOptions_def constructor_def objectPrototypeMembers_def exampleHost_def
        examplePrint_def Let_def units_def)

text \<open>
  C3, as the counter is written. After a sequence of \<open>addDocument\<close> calls on a new
  engine, \<open>totalDocuments\<close> is the number of calls that succeeded and the store has one
  entry per distinct id among them; so the counter equals the size of the store exactly
  when no id was added twice.
\<close>

theorem totalDocuments_counts_calls:
  "totalDocuments (addDocuments h (constructor opts) docs) = length (addedIds h (idField opts) docs)
   \<and> length (documents (addDocuments h (constructor opts) docs))
       = card (set (addedIds h (idField opts) docs))
   \<and> length (documents (addDocuments h (constructor opts) docs))
       \<le> totalDocuments (addDocuments h (constructor opts) docs)
   \<and> (totalDocuments (addDocuments h (constructor opts) docs)
        = length (documents (addDocuments h (constructor opts) docs)))
       = distinct (addedIds h (idField opts) docs)"
proof -
  have t: "totalDocuments (addDocuments h (constructor opts) docs)
             = length (addedIds h (idField opts) docs)"
    by (simp add: addDocuments_total) (simp add: constructor_def)
  have s: "length (documents (addDocuments h (constructor opts) docs))
             = card (set (addedIds h (idField opts) docs))"
    by (rule addDocuments_size)
  have "(length (addedIds h (idField opts) docs) = card (set (addedIds h (idField opts) docs)))
          = distinct (addedIds h (idField opts) docs)"
    by (metis card_distinct distinct_card)
  then show ?thesis
    using t s card_length [of "addedIds h (idField opts) docs"] by simp
qed

text \<open>
  C3 as the claim states it fails when an id is added twice: two calls with the id
  \<open>/a\<close> leave the counter at 2 and the store with one entry.
\<close>

theorem totalDocuments_counterexample:
  "totalDocuments
     (addDocuments exampleHost (constructor scenarioOptions) [scenarioDocument, scenarioDocument])
     = 2
   \<and> length (documents
       (addDocuments exampleHost (constructor scenarioOptions)
          [scenarioDocument, scenarioDocument])) = 1"
  by (simp add: addDocument_def documentIdOf_def getProp_def constructor_def Let_def
        scenarioOptions_def scenarioDocument_def)

section \<open>Edit distance\<close>

subsection \<open>The recurrence is the least number of edits\<close>

lemma lev_Nil2 [simp]: "lev xs [] = length xs"
  by (cases xs) simp_all

lemma lev_same [simp]: "lev xs xs = 0"
  by (induction xs) simp_all

lemma lev_Cons_le:
  "lev (x # xs) (y # ys) \<le> lev xs (y # ys) + 1"
  "lev (x # xs) (y # ys) \<le> lev (x # xs) ys + 1"
  "lev (x # xs) (y # ys) \<le> lev xs ys + (if x = y then 0 else 1)"
  "lev (x # xs) (y # ys) \<le> lev xs ys + 1"
  by (auto simp: min_def)

lemma lev_drop_head: "lev (c # v) ys \<le> lev v ys + 1"
  by (cases ys) (simp_all add: lev_Cons_le)

lemma lev_drop_head2: "lev v (y # ys) \<le> lev v ys + 1"
  by (cases v) (simp_all add: lev_Cons_le)

lemma lev_add_head: "lev v ys \<le> lev (c # v) ys + 1"
proof (induction ys)
  case Nil
  show ?case by simp
next
  case (Cons y ys)
  have a: "lev v (y # ys) \<le> lev v ys + 1" by (rule lev_drop_head2)
  show ?case using a Cons.IH by simp
qed

lemma lev_change_head: "lev (a # v) ys \<le> lev (b # v) ys + 1"
proof (induction ys)
  case Nil
  show ?case by simp
next
  case (Cons y ys)
  have "lev (a # v) (y # ys) \<le> lev v (y # ys) + 1"
    and "lev (a # v) (y # ys) \<le> lev (a # v) ys + 1"
    and "lev (a # v) (y # ys) \<le> lev v ys + 1"
    by (rule lev_Cons_le)+
  then show ?case using Cons.IH by (simp add: min_def)
qed

lemma lev_cons_close:
  assumes "\<And>ys. lev s ys \<le> lev s' ys + 1"
  shows "lev (x # s) ys \<le> lev (x # s') ys + 1"
proof (induction ys)
  case Nil
  show ?case using assms [of "[]"] by simp
next
  case (Cons y ys)
  have "lev (x # s) (y # ys) \<le> lev s (y # ys) + 1"
    and "lev (x # s) (y # ys) \<le> lev (x # s) ys + 1"
    and "lev (x # s) (y # ys) \<le> lev s ys + (if x = y then 0 else 1)"
    by (rule lev_Cons_le)+
  then show ?case
    using Cons.IH assms [of "y # ys"] assms [of ys] by (simp add: min_def split: if_splits)
qed

lemma lev_prefix_close:
  assumes "\<And>ys. lev s ys \<le> lev s' ys + 1"
  shows "lev (u @ s) ys \<le> lev (u @ s') ys + 1"
proof (induction u arbitrary: ys)
  case Nil
  show ?case using assms by simp
next
  case (Cons x u)
  show ?case using lev_cons_close [OF Cons.IH] by simp
qed

lemma lev_step: "edit_step s u \<Longrightarrow> lev s ys \<le> lev u ys + 1"
proof (induction rule: edit_step.induct)
  case (insertion u v c)
  show ?case by (rule lev_prefix_close) (rule lev_add_head)
next
  case (deletion u c v)
  show ?case by (rule lev_prefix_close) (rule lev_drop_head)
next
  case (substitution u a v b)
  show ?case by (rule lev_prefix_close) (rule lev_change_head)
qed

lemma lev_least: "edits n s t \<Longrightarrow> lev s t \<le> n"
proof (induction rule: edits.induct)
  case (edits_none s)
  show ?case by simp
next
  case (edits_more s u n t)
  then show ?case using lev_step [of s u t] by simp
qed

lemma edit_step_Cons: "edit_step s t \<Longrightarrow> edit_step (x # s) (x # t)"
proof (induction rule: edit_step.induct)
  case (insertion u v c)
  show ?case using edit_step.insertion [of "x # u" v c] by simp
next
  case (deletion u c v)
  show ?case using edit_step.deletion [of "x # u" c v] by simp
next
  case (substitution u a v b)
  show ?case using edit_step.substitution [of "x # u" a v b] by simp
qed

lemma edits_Cons: "edits n s t \<Longrightarrow> edits n (x # s) (x # t)"
  by (induction rule: edits.induct) (auto intro: edits.intros edit_step_Cons)

lemma edits_delete_head: "edits n s t \<Longrightarrow> edits (Suc n) (x # s) t"
  using edit_step.deletion [of "[]" x s] by (auto intro: edits_more)

lemma edits_insert_head: "edits n s t \<Longrightarrow> edits (Suc n) s (y # t)"
  using edit_step.insertion [of "[]" s y] by (auto intro: edits_more edits_Cons)

lemma edits_change_head: "edits n s t \<Longrightarrow> edits (Suc n) (x # s) (y # t)"
  using edit_step.substitution [of "[]" x s y] by (auto intro: edits_more edits_Cons)

lemma edits_from_Nil: "edits (length t) [] t"
  by (induction t) (auto intro: edits_none edits_insert_head)

lemma edits_to_Nil: "edits (length s) s []"
  by (induction s) (auto intro: edits_none edits_delete_head)

lemma lev_reached: "edits (lev s t) s t"
proof (induction s t rule: lev.induct)
  case (1 ys)
  show ?case by (simp add: edits_from_Nil)
next
  case (2 x xs)
  show ?case using edits_to_Nil [of "x # xs"] by simp
next
  case (3 x xs y ys)
  have d: "edits (lev xs (y # ys) + 1) (x # xs) (y # ys)"
    using 3(1) by (simp add: edits_delete_head)
  have i: "edits (lev (x # xs) ys + 1) (x # xs) (y # ys)"
    using 3(2) by (simp add: edits_insert_head)
  have s: "edits (lev xs ys + (if x = y then 0 else 1)) (x # xs) (y # ys)"
    using 3(3) by (simp add: edits_change_head edits_Cons)
  show ?case
    using d i s by (simp add: min_def)
qed

lemma edit_step_rev: "edit_step s t \<Longrightarrow> edit_step (rev s) (rev t)"
proof (induction rule: edit_step.induct)
  case (insertion u v c)
  show ?case using edit_step.insertion [of "rev v" "rev u" c] by simp
next
  case (deletion u c v)
  show ?case using edit_step.deletion [of "rev v" c "rev u"] by simp
next
  case (substitution u a v b)
  show ?case using edit_step.substitution [of "rev v" a "rev u" b] by simp
qed

lemma edits_rev: "edits n s t \<Longrightarrow> edits n (rev s) (rev t)"
  by (induction rule: edits.induct) (auto intro: edits.intros edit_step_rev)

subsection \<open>The loops compute the recurrence\<close>

lemma cell_row0: "c \<le> length source \<Longrightarrow> cell source target 0 c = c"
  by (simp add: cell_def)

lemma cell_col0: "r \<le> length target \<Longrightarrow> cell source target r 0 = r"
  by (simp add: cell_def)

lemma cell_Suc:
  assumes "c < length source" and "r < length target"
  shows "cell source target (Suc r) (Suc c) =
           min (min (cell source target r (Suc c) + 1) (cell source target (Suc r) c + 1))
               (cell source target r c + (if source ! c = target ! r then 0 else 1))"
  using assms by (simp add: cell_def take_Suc_conv_app_nth min.commute)

lemma filled_initial: "filled source target 0 (length source) (initialMatrix source target)"
proof -
  have row: "\<And>r. r \<le> length target \<Longrightarrow>
      initialMatrix source target ! r =
        map (\<lambda>colIndex. if r = 0 then colIndex else r) [0..<length source + 1]"
    unfolding initialMatrix_def by (simp del: upt_Suc add: nth_map_upt)
  have len: "length (initialMatrix source target) = length target + 1"
    by (simp add: initialMatrix_def)
  have c0: "\<And>c. c \<le> length source \<Longrightarrow> initialMatrix source target ! 0 ! c = c"
    using row [of 0] by (simp del: upt_Suc add: nth_map_upt)
  have r0: "\<And>r. 0 < r \<Longrightarrow> r \<le> length target \<Longrightarrow> initialMatrix source target ! r ! 0 = r"
    using row by (simp del: upt_Suc add: nth_map_upt)
  show ?thesis
    unfolding filled_def using len c0 r0 row by (simp del: upt_Suc add: cell_row0)
qed

lemma filled_next_row:
  assumes "filled source target r (length source) matrix" and "r < length target"
  shows "filled source target (Suc r) 0 matrix"
  using assms unfolding filled_def
  by (auto simp: less_Suc_eq cell_col0)

lemma filled_next_cell:
  assumes f: "filled source target (Suc r) c matrix"
    and r: "r < length target" and c: "c < length source"
  shows "filled source target (Suc r) (Suc c) (fillCell source target (Suc r) (Suc c) matrix)"
proof -
  let ?v = "min (min (matrix ! r ! Suc c + 1) (matrix ! Suc r ! c + 1))
                (matrix ! r ! c + (if source ! c = target ! r then 0 else 1))"
  let ?m = "matrix[Suc r := (matrix ! Suc r)[Suc c := ?v]]"
  have eq: "fillCell source target (Suc r) (Suc c) matrix = ?m"
    by (simp add: fillCell_def)
  have len: "length matrix = length target + 1"
    and rows: "\<And>q. q \<le> length target \<Longrightarrow> length (matrix ! q) = length source + 1"
    and below: "\<And>q j. q < Suc r \<Longrightarrow> j \<le> length source \<Longrightarrow> matrix ! q ! j = cell source target q j"
    and this_row: "\<And>j. j \<le> c \<Longrightarrow> matrix ! Suc r ! j = cell source target (Suc r) j"
    and above: "\<And>q. Suc r < q \<Longrightarrow> q \<le> length target \<Longrightarrow> matrix ! q ! 0 = q"
    using f unfolding filled_def by auto
  have v: "?v = cell source target (Suc r) (Suc c)"
    using below [of r "Suc c"] below [of r c] this_row [of c] r c
    by (simp add: cell_Suc)
  have other: "\<And>q. q \<noteq> Suc r \<Longrightarrow> ?m ! q = matrix ! q"
    by simp
  have mine: "?m ! Suc r = (matrix ! Suc r)[Suc c := ?v]"
    using len r by simp
  have a: "length ?m = length target + 1"
    using len by simp
  have b: "\<forall>q \<le> length target. length (?m ! q) = length source + 1"
  proof (intro allI impI)
    fix q assume "q \<le> length target"
    then show "length (?m ! q) = length source + 1"
      using rows [of q] rows [of "Suc r"] r len by (cases "q = Suc r") simp_all
  qed
  have c1: "\<forall>q < Suc r. \<forall>j \<le> length source. ?m ! q ! j = cell source target q j"
    using below by simp
  have d: "\<forall>j \<le> Suc c. ?m ! Suc r ! j = cell source target (Suc r) j"
  proof (intro allI impI)
    fix j assume j: "j \<le> Suc c"
    show "?m ! Suc r ! j = cell source target (Suc r) j"
    proof (cases "j = Suc c")
      case True
      have "Suc c < length (matrix ! Suc r)"
        using rows [of "Suc r"] r c by simp
      then have "(matrix ! Suc r)[Suc c := ?v] ! Suc c = ?v"
        by (rule nth_list_update_eq)
      then have "?m ! Suc r ! Suc c = ?v"
        by (simp only: mine)
      then show ?thesis
        unfolding True v .
    next
      case False
      then have "j \<le> c" using j by simp
      then show ?thesis
        using False this_row [of j] by (simp only: mine) simp
    qed
  qed
  have e: "\<forall>q. Suc r < q \<and> q \<le> length target \<longrightarrow> ?m ! q ! 0 = q"
    using above by simp
  show ?thesis
    unfolding eq filled_def using a b c1 d e by blast
qed

lemma filled_row:
  assumes "filled source target (Suc r) 0 matrix" and "r < length target"
    and "c \<le> length source"
  shows "filled source target (Suc r) c
           (fold (fillCell source target (Suc r)) [1..<c + 1] matrix)"
  using assms(3)
proof (induction c)
  case 0
  show ?case using assms(1) by simp
next
  case (Suc c)
  then have "filled source target (Suc r) c
               (fold (fillCell source target (Suc r)) [1..<c + 1] matrix)"
    and "c < length source"
    by simp_all
  then show ?case
    using filled_next_cell [OF _ assms(2)] by simp
qed

lemma filled_rows:
  assumes "r \<le> length target"
  shows "filled source target r (length source)
           (fold (fillRow source target) [1..<r + 1] (initialMatrix source target))"
  using assms
proof (induction r)
  case 0
  show ?case by (simp add: filled_initial)
next
  case (Suc r)
  then have r: "r < length target"
    and "filled source target r (length source)
           (fold (fillRow source target) [1..<r + 1] (initialMatrix source target))"
    by simp_all
  then have "filled source target (Suc r) 0
               (fold (fillRow source target) [1..<r + 1] (initialMatrix source target))"
    by (simp add: filled_next_row)
  then have "filled source target (Suc r) (length source)
               (fillRow source target (Suc r)
                  (fold (fillRow source target) [1..<r + 1] (initialMatrix source target)))"
    unfolding fillRow_def using r by (intro filled_row) simp_all
  moreover have "fold (fillRow source target) [1..<Suc r + 1] (initialMatrix source target) =
      fillRow source target (Suc r)
        (fold (fillRow source target) [1..<r + 1] (initialMatrix source target))"
    by simp
  ultimately show ?case
    by (simp only:)
qed

lemma levenshteinDistance_lev: "levenshteinDistance source target = lev (rev source) (rev target)"
proof -
  have "filled source target (length target) (length source)
          (fold (fillRow source target) [1..<length target + 1] (initialMatrix source target))"
    by (rule filled_rows) simp
  then show ?thesis
    unfolding levenshteinDistance_def filled_def by (simp add: cell_def)
qed

text \<open>
  C7. \<open>_levenshteinDistance(s, t)\<close> is the Levenshtein distance of \<open>s\<close> and \<open>t\<close>: that
  many single-character insertions, deletions and substitutions transform \<open>s\<close> into
  \<open>t\<close>, and no smaller number does.
\<close>

theorem levenshteinDistance_least:
  "edits (levenshteinDistance s t) s t \<and> (\<forall>n. edits n s t \<longrightarrow> levenshteinDistance s t \<le> n)"
proof (intro conjI allI impI)
  show "edits (levenshteinDistance s t) s t"
    using edits_rev [OF lev_reached [of "rev s" "rev t"]]
    by (simp add: levenshteinDistance_lev)
next
  fix n assume "edits n s t"
  then have "edits n (rev s) (rev t)" by (rule edits_rev)
  then show "levenshteinDistance s t \<le> n"
    by (simp add: levenshteinDistance_lev lev_least)
qed

lemma levenshteinDistance_same [simp]: "levenshteinDistance s s = 0"
  by (simp add: levenshteinDistance_lev)

lemmas matrix_defs =
  levenshteinDistance_def fillRow_def fillCell_def initialMatrix_def upt_rec nth_Cons' units_def

theorem levenshteinDistance_least_witness:
  "edits 3 (units ''kitten'') (units ''sitting'')
   \<and> levenshteinDistance (units ''kitten'') (units ''sitting'') = 3"
proof -
  have s1: "edit_step (units ''kitten'') (units ''sitten'')"
    using edit_step.substitution [of "[]" "of_char CHR ''k''" "units ''itten''" "of_char CHR ''s''"]
    by (simp add: units_def)
  have s2: "edit_step (units ''sitten'') (units ''sittin'')"
    using edit_step.substitution [of "units ''sitt''" "of_char CHR ''e''" "units ''n''"
        "of_char CHR ''i''"]
    by (simp add: units_def)
  have s3: "edit_step (units ''sittin'') (units ''sitting'')"
    using edit_step.insertion [of "units ''sittin''" "[]" "of_char CHR ''g''"]
    by (simp add: units_def)
  have three: "edits 3 (units ''kitten'') (units ''sitting'')"
    using edits_more [OF s1 edits_more [OF s2 edits_more [OF s3 edits_none]]]
    by (simp add: numeral_3_eq_3)
  have "levenshteinDistance (units ''kitten'') (units ''sitting'') = 3"
    by (simp add: matrix_defs)
  then show ?thesis
    using three levenshteinDistance_least [of "units ''kitten''" "units ''sitting''"] by simp
qed

section \<open>Search: the wildcard query and the calls of the filter\<close>

lemma visitDocument_calls:
  "snd (visitDocument h e (Some f) field indexedTerm penaltyFactor documentId st) =
     snd st @ storedIds e [documentId]"
  by (simp add: visitDocument_def storedIds_def split: option.splits)

lemma visitDocuments_calls:
  "snd (fold (visitDocument h e (Some f) field indexedTerm penaltyFactor) docIds st) =
     snd st @ storedIds e docIds"
proof (induction docIds arbitrary: st)
  case Nil
  show ?case by (simp add: storedIds_def)
next
  case (Cons d docIds)
  show ?case
    by (simp add: Cons.IH visitDocument_calls) (simp add: storedIds_def)
qed

lemma visitIndexedTerm_calls:
  "snd (visitIndexedTerm h e (Some f) field searchTerm entry st) =
     snd st @ (if termMatches searchTerm (fst entry) then storedIds e (snd entry) else [])"
  by (auto simp: visitIndexedTerm_def Let_def termMatches_def visitDocuments_calls)

lemma visitIndexedTerms_calls:
  "snd (fold (visitIndexedTerm h e (Some f) field searchTerm) entries st) =
     snd st @ concat (map (\<lambda>entry.
        if termMatches searchTerm (fst entry) then storedIds e (snd entry) else []) entries)"
  by (induction entries arbitrary: st) (simp_all add: visitIndexedTerm_calls)

lemma visitSearchTerms_calls:
  "snd (fold (\<lambda>searchTerm. fold (visitIndexedTerm h e (Some f) field searchTerm) entries)
          sts st) =
     snd st @ concat (map (\<lambda>searchTerm. concat (map (\<lambda>entry.
        if termMatches searchTerm (fst entry) then storedIds e (snd entry) else []) entries)) sts)"
  by (induction sts arbitrary: st) (simp_all add: visitIndexedTerms_calls)

lemma visitField_calls:
  "snd (visitField h e (Some f) query field st) =
     snd st @ (if customBoostFactorField (options e) = Some field then []
               else concat (map (\<lambda>searchTerm. concat (map (\<lambda>entry.
                 if termMatches searchTerm (fst entry) then storedIds e (snd entry) else [])
                 (invertedIndex e))) (searchTerms h query)))"
  by (simp add: visitField_def visitSearchTerms_calls)

lemma visitFields_calls:
  "snd (fold (visitField h e (Some f) query) fs st) =
     snd st @ concat (map (\<lambda>field.
         if customBoostFactorField (options e) = Some field then []
         else concat (map (\<lambda>searchTerm. concat (map (\<lambda>entry.
                 if termMatches searchTerm (fst entry) then storedIds e (snd entry) else [])
                 (invertedIndex e))) (searchTerms h query))) fs)"
  by (induction fs arbitrary: st) (simp_all add: visitField_calls)

lemma filterCalls_visits:
  "query \<noteq> units ''*'' \<Longrightarrow> filterCalls h e query (Some f) = visits h e query"
  by (simp add: filterCalls_def searchRun_def Let_def visitFields_calls visits_def)

subsection \<open>The scenario engine\<close>

lemma terms_Hello: "terms exampleHost (units ''Hello'') = [units ''hello'']"
  by (simp add: string_defs)

lemma terms_world: "terms exampleHost (units ''world'') = [units ''world'']"
  by (simp add: string_defs)

lemmas ingest_defs =
  addDocument_def documentIdOf_def getProp_def objectPrototypeMembers_def constructor_def
  Let_def index_field_def index_term_def set_add_def filteredDocument_def

lemma scenarioEngine_state:
  "options scenarioEngine = scenarioOptions"
  "map fst (documents scenarioEngine) = [units ''/a'']"
  "invertedIndex scenarioEngine = [(units ''hello'', [units ''/a'']), (units ''world'', [units ''/a''])]"
  "documentLengths scenarioEngine = [(units ''/a'', 10)]"
  "totalDocuments scenarioEngine = 1"
  "averageDocumentLength scenarioEngine = Fin 0"
  "specificDocumentBoosts scenarioEngine = []"
  by (simp_all add: scenarioEngine_def scenarioOptions_def scenarioDocument_def ingest_defs
        terms_Hello terms_world)

lemma scenarioEngine_stored:
  "map_of (documents scenarioEngine) (units ''/a'') \<noteq> None"
  "map_of (documents scenarioEngine) (units ''/b'') = None"
  by (simp_all add: scenarioEngine_def scenarioOptions_def scenarioDocument_def addDocument_def
        documentIdOf_def getProp_def constructor_def Let_def)

lemma wildcard_unfiltered:
  "initialResults (options e) = Some ids \<Longrightarrow>
   search h e (units ''*'') None = map (wildcardEntry e) ids"
  by (simp add: search_def searchRun_def)

text \<open>
  C1 fails on the engine of scenario S5. The initial results are \<open>/a\<close> and \<open>/b\<close>, only
  \<open>/a\<close> is stored, no filter is given: the wildcard query returns two entries, the
  second for the id \<open>/b\<close> with no document.
\<close>

theorem wildcard_keeps_dangling_id:
  "map resultId (search h scenarioEngine (units ''*'') None) = [units ''/a'', units ''/b'']
   \<and> resultDocument (search h scenarioEngine (units ''*'') None ! 1) = None"
  by (simp add: search_def searchRun_def scenarioEngine_state scenarioOptions_def
        wildcardEntry_def scenarioEngine_stored)

text \<open>
  C2, as the loops call the filter. On a query other than the wildcard, the filter is
  called once for every stored document id of every posting set visited: once per
  searched field, search term and matching indexed term. A document reached by several
  such visits is filtered once in each of them.
\<close>

theorem filter_called_once_per_visit:
  assumes "query \<noteq> units ''*''"
  shows "filterCalls h e query (Some f) = visits h e query"
  using assms by (rule filterCalls_visits)

lemma searchTerms_hello: "searchTerms exampleHost (units ''hello'') = [units ''hello'']"
  by (simp add: searchTerms_def string_defs)

lemma matches_hello:
  "termMatches (units ''hello'') (units ''hello'')"
  "\<not> termMatches (units ''hello'') (units ''world'')"
  by (simp_all add: termMatches_def startsWith_def maxDistance_def matrix_defs)

lemma scenario_storedIds: "storedIds scenarioEngine [units ''/a''] = [units ''/a'']"
  by (simp add: storedIds_def scenarioEngine_def scenarioOptions_def scenarioDocument_def
        addDocument_def documentIdOf_def getProp_def constructor_def Let_def)

lemma scenario_visits:
  "visits exampleHost scenarioEngine (units ''hello'') = [units ''/a'', units ''/a'']"
  by (simp add: visits_def scenarioEngine_state scenarioOptions_def searchTerms_hello
        matches_hello scenario_storedIds)

theorem filter_called_once_per_visit_witness:
  "units ''hello'' \<noteq> units ''*''
   \<and> filterCalls exampleHost scenarioEngine (units ''hello'') (Some acceptAll)
       = [units ''/a'', units ''/a'']"
  using filter_called_once_per_visit [of "units ''hello''" exampleHost scenarioEngine acceptAll]
  by (simp add: scenario_visits)

text \<open>
  C2 as the claim states it fails: the query \<open>hello\<close> reaches the document \<open>/a\<close> through
  the field \<open>title\<close> and through the field \<open>body\<close>, and the filter is called on it twice.
\<close>

theorem filter_called_twice_counterexample:
  "count_list (filterCalls exampleHost scenarioEngine (units ''hello'') (Some acceptAll))
     (units ''/a'') = 2"
  by (simp add: filterCalls_visits scenario_visits)

section \<open>Scoring\<close>

lemma calculateBM25_formula:
  "calculateBM25 e documentId term = jmul (idf e term) (freq e documentId term)"
  by (simp add: calculateBM25_def idf_def freq_def tf_def df_def postingSet_def
        storedLength_def Let_def)

lemma candidateScore_formula:
  "candidateScore h e field indexedTerm p documentId doc =
     amendedContribution h e field indexedTerm p documentId doc"
  by (simp add: candidateScore_def amendedContribution_def calculateBM25_formula Let_def)

text \<open>
  C4. Ingest never writes \<open>averageDocumentLength\<close>: after any sequence of \<open>addDocument\<close>
  calls on a new engine it is the \<open>0\<close> of the construction, and it is the value by which
  the scorer divides the length of the document.
\<close>

theorem averageDocumentLength_never_written:
  "averageDocumentLength (addDocuments h (constructor opts) docs) = Fin 0
   \<and> averageDocumentLength (snd (addDocument h e doc)) = averageDocumentLength e
   \<and> calculateBM25 e documentId term =
       jmul (idf e term)
         (jadd (jdiv (jmul (num (tf e documentId term)) (jadd (Fin 1.2) (Fin 1)))
                  (jadd (num (tf e documentId term))
                     (jmul (Fin 1.2)
                        (jadd (jsub (Fin 1) (Fin 0.7))
                           (jmul (Fin 0.7)
                              (jdiv (num (storedLength e documentId))
                                    (averageDocumentLength e)))))))
               (Fin 0.5))"
proof (intro conjI)
  show "averageDocumentLength (addDocuments h (constructor opts) docs) = Fin 0"
    by (simp add: constructor_def)
  show "averageDocumentLength (snd (addDocument h e doc)) = averageDocumentLength e"
    by simp
  show "calculateBM25 e documentId term =
       jmul (idf e term)
         (jadd (jdiv (jmul (num (tf e documentId term)) (jadd (Fin 1.2) (Fin 1)))
                  (jadd (num (tf e documentId term))
                     (jmul (Fin 1.2)
                        (jadd (jsub (Fin 1) (Fin 0.7))
                           (jmul (Fin 0.7)
                              (jdiv (num (storedLength e documentId))
                                    (averageDocumentLength e)))))))
               (Fin 0.5))"
    by (simp only: calculateBM25_formula freq_def)
qed

subsection \<open>The engines with a custom boost field\<close>

lemma terms_foo: "terms exampleHost (units ''foo'') = [units ''foo'']"
  by (simp add: string_defs)

lemmas ranked_defs = ingest_defs rankedOptions_def rankedDocument_def

lemma zeroBoostEngine_state:
  "options zeroBoostEngine = rankedOptions (Some [(units ''/a'', Fin 0)])"
  "documents zeroBoostEngine = [(units ''/a'', rankedDocument (units ''/a'') 1000)]"
  "invertedIndex zeroBoostEngine = [(units ''foo'', [units ''/a''])]"
  "documentLengths zeroBoostEngine = [(units ''/a'', 3)]"
  "totalDocuments zeroBoostEngine = 1"
  "averageDocumentLength zeroBoostEngine = Fin 0"
  "specificDocumentBoosts zeroBoostEngine = [(units ''/a'', Fin 0)]"
  by (simp_all add: zeroBoostEngine_def ranked_defs terms_foo)

lemma noBoostEngine_state:
  "options noBoostEngine = rankedOptions None"
  "documents noBoostEngine = [(units ''/a'', rankedDocument (units ''/a'') 1000)]"
  "invertedIndex noBoostEngine = [(units ''foo'', [units ''/a''])]"
  "documentLengths noBoostEngine = [(units ''/a'', 3)]"
  "totalDocuments noBoostEngine = 1"
  "averageDocumentLength noBoostEngine = Fin 0"
  "specificDocumentBoosts noBoostEngine = []"
  by (simp_all add: noBoostEngine_def ranked_defs terms_foo)

lemma zeroBoostEngine_idf: "idf zeroBoostEngine (units ''foo'') = Fin (ln (4 / 3))"
  by (simp add: idf_def df_def postingSet_def zeroBoostEngine_state num_def jsub_def)

lemma zeroBoostEngine_freq: "freq zeroBoostEngine (units ''/a'') (units ''foo'') = Fin (1 / 2)"
  by (simp add: freq_def tf_def postingSet_def storedLength_def zeroBoostEngine_state num_def
        jsub_def)

lemma zeroBoostEngine_amended:
  "amendedContribution exampleHost zeroBoostEngine (units ''title'') (units ''foo'') (Fin (3 / 8)) (units ''/a'')
     (rankedDocument (units ''/a'') 1000) = Fin (ln (4 / 3) * (3 / 16) + 11)"
  by (simp add: amendedContribution_def zeroBoostEngine_idf zeroBoostEngine_freq
        zeroBoostEngine_state rankedOptions_def rankedDocument_def getProp_def)

lemma zeroBoostEngine_claimed:
  "claimedContribution exampleHost zeroBoostEngine (units ''title'') (units ''foo'') (Fin (3 / 8)) (units ''/a'')
     (rankedDocument (units ''/a'') 1000) = Fin 11"
  by (simp add: claimedContribution_def zeroBoostEngine_idf zeroBoostEngine_freq
        zeroBoostEngine_state rankedOptions_def rankedDocument_def getProp_def)

lemma accumulate_get:
  "map_of (accumulate documentId sc results) documentId =
     Some (jadd (case map_of results documentId of
                   None \<Rightarrow> Fin 0 | Some s \<Rightarrow> if truthy s then s else Fin 0) sc)"
  by (simp add: accumulate_def update_conv')

text \<open>
  C5, as the code computes it. For every candidate reached during search (a stored
  document that passes the filter, an indexed term, a field and the penalty \<open>p\<close>), the
  contribution added to the accumulated score of the document is \<open>idf * freq * p\<close>,
  multiplied by the specific boost of the id when one is configured and truthy,
  multiplied by \<open>boost[field]\<close> when it is defined and truthy, plus \<open>cb * 0.011\<close> when the
  custom boost field has a non-empty name and the stored document has it with value
  \<open>cb\<close>; an accumulated score that is missing, \<open>0\<close> or \<open>NaN\<close> counts as \<open>0\<close>.
\<close>

theorem candidate_contribution:
  assumes "map_of (documents e) documentId = Some doc"
    and "case filterFunction of None \<Rightarrow> True | Some f \<Rightarrow> f (Some doc)"
  shows "candidateScore h e field indexedTerm p documentId doc =
           amendedContribution h e field indexedTerm p documentId doc
         \<and> map_of (fst (visitDocument h e filterFunction field indexedTerm p documentId st))
             documentId =
           Some (jadd (case map_of (fst st) documentId of
                         None \<Rightarrow> Fin 0 | Some s \<Rightarrow> if truthy s then s else Fin 0)
                      (amendedContribution h e field indexedTerm p documentId doc))"
  using assms
  by (simp add: visitDocument_def accumulate_get candidateScore_formula split: option.splits)

theorem candidate_contribution_witness:
  "map_of (documents zeroBoostEngine) (units ''/a'') = Some (rankedDocument (units ''/a'') 1000)
   \<and> map_of (fst (visitDocument exampleHost zeroBoostEngine None (units ''title'') (units ''foo'') (Fin (3 / 8))
                    (units ''/a'') ([], []))) (units ''/a'') = Some (Fin (ln (4 / 3) * (3 / 16) + 11))"
proof -
  have stored: "map_of (documents zeroBoostEngine) (units ''/a'') = Some (rankedDocument (units ''/a'') 1000)"
    by (simp add: zeroBoostEngine_state)
  have pass: "case None :: filterFunction option of None \<Rightarrow> True | Some f \<Rightarrow> f (Some (rankedDocument (units ''/a'') 1000))"
    by simp
  show ?thesis
    using candidate_contribution [OF stored pass, of exampleHost "units ''title''" "units ''foo''" "Fin (3 / 8)" "([], [])"]
    by (simp add: stored zeroBoostEngine_amended)
qed

text \<open>
  C5 as the claim states it fails on a specific boost of \<open>0\<close>: the claim multiplies
  the score by it, the code skips the multiplication.
\<close>

theorem contribution_counterexample:
  "candidateScore exampleHost zeroBoostEngine (units ''title'') (units ''foo'') (Fin (3 / 8)) (units ''/a'')
     (rankedDocument (units ''/a'') 1000)
   \<noteq> claimedContribution exampleHost zeroBoostEngine (units ''title'') (units ''foo'') (Fin (3 / 8)) (units ''/a'')
       (rankedDocument (units ''/a'') 1000)"
  by (simp add: candidateScore_formula zeroBoostEngine_amended zeroBoostEngine_claimed)

section \<open>A specific boost of zero\<close>

lemma calculateBM25_without_boost:
  "calculateBM25 (e\<lparr>specificDocumentBoosts := bs\<rparr>) = calculateBM25 e"
  by (intro ext) (simp add: calculateBM25_def)

lemma candidateScore_without_zero_boost:
  assumes "map_of (specificDocumentBoosts e) d = Some (Fin 0)"
  shows "candidateScore h
           (e\<lparr>specificDocumentBoosts := AList.delete d (specificDocumentBoosts e)\<rparr>)
           field indexedTerm p documentId doc =
         candidateScore h e field indexedTerm p documentId doc"
  using assms
  by (cases "documentId = d")
     (simp_all add: candidateScore_def calculateBM25_without_boost delete_conv')

lemma visitDocument_without_zero_boost:
  assumes "map_of (specificDocumentBoosts e) d = Some (Fin 0)"
  shows "visitDocument h
           (e\<lparr>specificDocumentBoosts := AList.delete d (specificDocumentBoosts e)\<rparr>) =
         visitDocument h e"
  by (intro ext)
     (simp add: visitDocument_def candidateScore_without_zero_boost [OF assms]
        split: option.splits)

lemma visitIndexedTerm_without_zero_boost:
  assumes "map_of (specificDocumentBoosts e) d = Some (Fin 0)"
  shows "visitIndexedTerm h
           (e\<lparr>specificDocumentBoosts := AList.delete d (specificDocumentBoosts e)\<rparr>) =
         visitIndexedTerm h e"
  by (intro ext)
     (simp add: visitIndexedTerm_def Let_def visitDocument_without_zero_boost [OF assms]
        cong: if_cong)

lemma visitField_without_zero_boost:
  assumes "map_of (specificDocumentBoosts e) d = Some (Fin 0)"
  shows "visitField h
           (e\<lparr>specificDocumentBoosts := AList.delete d (specificDocumentBoosts e)\<rparr>) =
         visitField h e"
  by (intro ext)
     (simp add: visitField_def visitIndexedTerm_without_zero_boost [OF assms] cong: if_cong)

lemma wildcardEntry_without_boost:
  "wildcardEntry (e\<lparr>specificDocumentBoosts := bs\<rparr>) = wildcardEntry e"
  by (intro ext) (simp add: wildcardEntry_def)

lemma assemble_without_boost:
  "assemble (e\<lparr>specificDocumentBoosts := bs\<rparr>) = assemble e"
  by (intro ext) (simp add: assemble_def)

lemma searchRun_without_zero_boost:
  assumes "map_of (specificDocumentBoosts e) d = Some (Fin 0)"
  shows "searchRun h
           (e\<lparr>specificDocumentBoosts := AList.delete d (specificDocumentBoosts e)\<rparr>) =
         searchRun h e"
  by (intro ext)
     (simp add: searchRun_def visitField_without_zero_boost [OF assms] assemble_without_boost
        wildcardEntry_without_boost Let_def split: option.splits cong: if_cong)

lemma searchTerms_foo: "searchTerms exampleHost (units ''foo'') = [units ''foo'']"
  by (simp add: searchTerms_def string_defs)

lemma foo_foo:
  "startsWith (units ''foo'') (units ''foo'')"
  "levenshteinDistance (units ''foo'') (units ''foo'') = 0"
  by (simp_all add: startsWith_def)

lemma prefixPenalty_foo: "prefixPenalty (units ''foo'') (units ''foo'') = Fin (3 / 8)"
  by (simp add: prefixPenalty_def num_def)

lemma zeroBoostEngine_results:
  "visitField exampleHost zeroBoostEngine None (units ''foo'') (units ''rank'')
     (visitField exampleHost zeroBoostEngine None (units ''foo'') (units ''title'') ([], [])) =
   ([(units ''/a'', Fin (ln (4 / 3) * (3 / 16) + 11))], [])"
  by (simp add: zeroBoostEngine_state rankedOptions_def visitField_def searchTerms_foo
        visitIndexedTerm_def foo_foo prefixPenalty_foo visitDocument_def accumulate_def
        candidateScore_formula zeroBoostEngine_amended)

lemma zeroBoostEngine_search:
  "search exampleHost zeroBoostEngine (units ''foo'') None =
     [\<lparr> resultId = units ''/a'', resultScore = Fin (ln (4 / 3) * (3 / 16) + 11),
        resultDocument = Some (rankedDocument (units ''/a'') 1000),
        textMatch = Some (Fin (ln (4 / 3) * (3 / 16) + 11)) \<rparr>]"
proof -
  have "0 < ln (4 / 3 :: real)"
    by simp
  then have "0 < 89 + 15 * ln (4 / 3 :: real) / 8"
    by linarith
  then show ?thesis
    by (simp add: search_def searchRun_def zeroBoostEngine_state rankedOptions_def
          zeroBoostEngine_results assemble_def sortByScore_def)
qed

lemma noBoostEngine_score:
  "candidateScore exampleHost noBoostEngine (units ''title'') (units ''foo'') (Fin (3 / 8)) (units ''/a'')
     (rankedDocument (units ''/a'') 1000) = Fin (ln (4 / 3) * (3 / 16) + 11)"
  by (simp add: candidateScore_formula amendedContribution_def idf_def freq_def df_def tf_def
        postingSet_def storedLength_def noBoostEngine_state num_def jsub_def rankedOptions_def
        rankedDocument_def getProp_def)

lemma noBoostEngine_results:
  "visitField exampleHost noBoostEngine None (units ''foo'') (units ''rank'')
     (visitField exampleHost noBoostEngine None (units ''foo'') (units ''title'') ([], [])) =
   ([(units ''/a'', Fin (ln (4 / 3) * (3 / 16) + 11))], [])"
  by (simp add: noBoostEngine_state rankedOptions_def visitField_def searchTerms_foo
        visitIndexedTerm_def foo_foo prefixPenalty_foo visitDocument_def accumulate_def
        noBoostEngine_score)

lemma noBoostEngine_search:
  "search exampleHost noBoostEngine (units ''foo'') None =
     [\<lparr> resultId = units ''/a'', resultScore = Fin (ln (4 / 3) * (3 / 16) + 11),
        resultDocument = Some (rankedDocument (units ''/a'') 1000),
        textMatch = Some (Fin (ln (4 / 3) * (3 / 16) + 11)) \<rparr>]"
proof -
  have "0 < ln (4 / 3 :: real)"
    by simp
  then have "0 < 89 + 15 * ln (4 / 3 :: real) / 8"
    by linarith
  then show ?thesis
    by (simp add: search_def searchRun_def noBoostEngine_state rankedOptions_def
          noBoostEngine_results assemble_def sortByScore_def)
qed

text \<open>
  C10. When the specific boost configured for a document id is \<open>0\<close>, search scores the
  candidates of that id as if no specific boost were configured for it: the
  multiplication is skipped, every candidate score and the whole result of search are
  those of the engine without that boost, so the score is not forced to \<open>0\<close> and the
  document can still be returned.
\<close>

theorem zero_boost_is_no_boost:
  assumes "map_of (specificDocumentBoosts e) d = Some (Fin 0)"
  shows "candidateScore h
           (e\<lparr>specificDocumentBoosts := AList.delete d (specificDocumentBoosts e)\<rparr>)
           field indexedTerm p d doc =
         candidateScore h e field indexedTerm p d doc
       \<and> search h
           (e\<lparr>specificDocumentBoosts := AList.delete d (specificDocumentBoosts e)\<rparr>)
           query filterFunction =
         search h e query filterFunction"
  by (simp add: search_def searchRun_without_zero_boost [OF assms]
        candidateScore_without_zero_boost [OF assms])

theorem zero_boost_is_no_boost_witness:
  "map_of (specificDocumentBoosts zeroBoostEngine) (units ''/a'') = Some (Fin 0)
   \<and> search exampleHost
       (zeroBoostEngine\<lparr>specificDocumentBoosts :=
          AList.delete (units ''/a'') (specificDocumentBoosts zeroBoostEngine)\<rparr>) (units ''foo'') None =
     search exampleHost zeroBoostEngine (units ''foo'') None
   \<and> search exampleHost zeroBoostEngine (units ''foo'') None = search exampleHost noBoostEngine (units ''foo'') None
   \<and> map resultId (search exampleHost zeroBoostEngine (units ''foo'') None) = [units ''/a'']
   \<and> map resultScore (search exampleHost zeroBoostEngine (units ''foo'') None) =
       [Fin (ln (4 / 3) * (3 / 16) + 11)]"
proof -
  have zero: "map_of (specificDocumentBoosts zeroBoostEngine) (units ''/a'') = Some (Fin 0)"
    by (simp add: zeroBoostEngine_state)
  show ?thesis
    using zero_boost_is_no_boost [OF zero, of exampleHost "units ''title''" "units ''foo''" "Fin (3 / 8)"
        "rankedDocument (units ''/a'') 1000" "units ''foo''" None]
    by (simp add: zero zeroBoostEngine_search noBoostEngine_search)
qed

section \<open>The returned list\<close>

lemma readdedEngine_state:
  "options readdedEngine = rankedOptions None"
  "documents readdedEngine =
     [(units ''/x'', rankedDocument (units ''/x'') 300),
      (units ''/y'', [(units ''path'') \<mapsto> Str (units ''/y''), (units ''rank'') \<mapsto> Num (Fin 1)]),
      (units ''/z'', rankedDocument (units ''/z'') 500)]"
  "invertedIndex readdedEngine = [(units ''foo'', [(units ''/x''), (units ''/y''), (units ''/z'')])]"
  "documentLengths readdedEngine = [(units ''/x'', 3), (units ''/y'', 0), (units ''/z'', 3)]"
  "totalDocuments readdedEngine = 4"
  "averageDocumentLength readdedEngine = Fin 0"
  "specificDocumentBoosts readdedEngine = []"
  by (simp_all add: readdedEngine_def ranked_defs terms_foo)

lemma readdedEngine_idf: "idf readdedEngine (units ''foo'') = Fin (ln (10 / 7))"
  by (simp add: idf_def df_def postingSet_def readdedEngine_state num_def jsub_def)

lemma readdedEngine_freq:
  "freq readdedEngine (units ''/x'') (units ''foo'') = Fin (1 / 2)"
  "freq readdedEngine (units ''/y'') (units ''foo'') = NaN"
  "freq readdedEngine (units ''/z'') (units ''foo'') = Fin (1 / 2)"
  by (simp_all add: freq_def tf_def postingSet_def storedLength_def readdedEngine_state num_def
        jsub_def)

lemma readdedEngine_scores:
  "candidateScore exampleHost readdedEngine (units ''title'') (units ''foo'') (Fin (3 / 8)) (units ''/x'')
     (rankedDocument (units ''/x'') 300) = Fin (ln (10 / 7) * (3 / 16) + 33 / 10)"
  "candidateScore exampleHost readdedEngine (units ''title'') (units ''foo'') (Fin (3 / 8)) (units ''/y'')
     [(units ''path'') \<mapsto> Str (units ''/y''), (units ''rank'') \<mapsto> Num (Fin 1)] = NaN"
  "candidateScore exampleHost readdedEngine (units ''title'') (units ''foo'') (Fin (3 / 8)) (units ''/z'')
     (rankedDocument (units ''/z'') 500) = Fin (ln (10 / 7) * (3 / 16) + 11 / 2)"
  by (simp_all add: candidateScore_formula amendedContribution_def readdedEngine_idf
        readdedEngine_freq readdedEngine_state rankedOptions_def rankedDocument_def
        getProp_def objectPrototypeMembers_def)

lemma readdedEngine_results:
  "visitField exampleHost readdedEngine None (units ''foo'') (units ''rank'')
     (visitField exampleHost readdedEngine None (units ''foo'') (units ''title'') ([], [])) =
   ([(units ''/x'', Fin (ln (10 / 7) * (3 / 16) + 33 / 10)), (units ''/y'', NaN),
     (units ''/z'', Fin (ln (10 / 7) * (3 / 16) + 11 / 2))], [])"
  by (simp add: readdedEngine_state rankedOptions_def visitField_def searchTerms_foo
        visitIndexedTerm_def foo_foo prefixPenalty_foo visitDocument_def accumulate_def
        readdedEngine_scores)

subsection \<open>What holds of the returned list\<close>

lemma search_size:
  "query \<noteq> (units ''*'') \<Longrightarrow> length (search h e query filterFunction) \<le> 34"
  by (simp add: search_def searchRun_def Let_def assemble_def)

lemma search_threshold:
  "query \<noteq> (units ''*'') \<Longrightarrow> r \<in> set (search h e query filterFunction) \<Longrightarrow>
   jgt (resultScore r) (Fin 2.1)"
  by (auto simp: search_def searchRun_def Let_def assemble_def dest: in_set_takeD)

lemma jgt_jsub:
  "a \<noteq> NaN \<Longrightarrow> b \<noteq> NaN \<Longrightarrow> jgt (jsub a b) (Fin 0) = jgt a b"
  by (cases a; cases b) (simp_all add: jsub_def)

lemma not_jgt_trans:
  "a \<noteq> NaN \<Longrightarrow> b \<noteq> NaN \<Longrightarrow> c \<noteq> NaN \<Longrightarrow> \<not> jgt a b \<Longrightarrow> \<not> jgt b c \<Longrightarrow> \<not> jgt a c"
  by (cases a; cases b; cases c) simp_all

lemma jgt_asym: "jgt a b \<Longrightarrow> \<not> jgt b a"
  by (cases a; cases b) simp_all

lemma set_insertFromRight: "set (insertFromRight x acc) = insert x (set acc)"
  by (induction acc) auto

lemma insertFromRight_sorted:
  assumes "\<forall>r \<in> set (x # acc). resultScore r \<noteq> NaN"
    and "sorted_wrt (\<lambda>a b. \<not> jgt (resultScore a) (resultScore b)) acc"
  shows "sorted_wrt (\<lambda>a b. \<not> jgt (resultScore a) (resultScore b)) (insertFromRight x acc)"
  using assms
proof (induction acc)
  case Nil
  show ?case by simp
next
  case (Cons y acc)
  have nn: "resultScore x \<noteq> NaN" "resultScore y \<noteq> NaN"
    "\<forall>r \<in> set acc. resultScore r \<noteq> NaN"
    using Cons.prems(1) by simp_all
  have c: "jgt (compareScores y x) (Fin 0) = jgt (resultScore x) (resultScore y)"
    using nn by (simp add: compareScores_def jgt_jsub)
  show ?case
  proof (cases "jgt (resultScore x) (resultScore y)")
    case True
    have "sorted_wrt (\<lambda>a b. \<not> jgt (resultScore a) (resultScore b)) (insertFromRight x acc)"
      using Cons by simp
    moreover have "\<not> jgt (resultScore y) (resultScore x)"
      using True by (rule jgt_asym)
    ultimately show ?thesis
      using True c Cons.prems(2) by (simp add: set_insertFromRight)
  next
    case False
    have "\<forall>r \<in> set acc. \<not> jgt (resultScore x) (resultScore r)"
    proof
      fix r assume r: "r \<in> set acc"
      then have "\<not> jgt (resultScore y) (resultScore r)"
        using Cons.prems(2) by simp
      then show "\<not> jgt (resultScore x) (resultScore r)"
        using False nn r not_jgt_trans [of "resultScore x" "resultScore y" "resultScore r"]
        by blast
    qed
    then show ?thesis
      using False c Cons.prems(2) by simp
  qed
qed

lemma fold_insertFromRight_sorted:
  assumes "\<forall>r \<in> set xs \<union> set acc. resultScore r \<noteq> NaN"
    and "sorted_wrt (\<lambda>a b. \<not> jgt (resultScore a) (resultScore b)) acc"
  shows "sorted_wrt (\<lambda>a b. \<not> jgt (resultScore a) (resultScore b))
           (fold insertFromRight xs acc)"
  using assms
proof (induction xs arbitrary: acc)
  case Nil
  then show ?case by simp
next
  case (Cons x xs)
  have "sorted_wrt (\<lambda>a b. \<not> jgt (resultScore a) (resultScore b)) (insertFromRight x acc)"
    using Cons.prems by (intro insertFromRight_sorted) simp_all
  moreover have "\<forall>r \<in> set xs \<union> set (insertFromRight x acc). resultScore r \<noteq> NaN"
    using Cons.prems(1) by (auto simp: set_insertFromRight)
  ultimately show ?case
    using Cons.IH by simp
qed

lemma sortByScore_sorted:
  assumes "\<forall>r \<in> set xs. resultScore r \<noteq> NaN"
  shows "sorted_wrt (\<lambda>a b. \<not> jgt (resultScore b) (resultScore a)) (sortByScore xs)"
proof -
  have "sorted_wrt (\<lambda>a b. \<not> jgt (resultScore a) (resultScore b)) (fold insertFromRight xs [])"
    using assms by (intro fold_insertFromRight_sorted) simp_all
  then show ?thesis
    by (simp add: sortByScore_def sorted_wrt_rev)
qed

lemma search_sorted_without_NaN:
  assumes "query \<noteq> (units ''*'')"
    and "\<forall>entry \<in> set (fst (fold (visitField h e filterFunction query)
                                   (fields' (options e)) ([], []))). snd entry \<noteq> NaN"
  shows "sorted_wrt (\<lambda>a b. \<not> jgt (resultScore b) (resultScore a))
           (search h e query filterFunction)"
proof -
  let ?rs = "map (\<lambda>entry. \<lparr> resultId = fst entry, resultScore = snd entry,
                          resultDocument = map_of (documents e) (fst entry),
                          textMatch = Some (snd entry) \<rparr>)
               (fst (fold (visitField h e filterFunction query) (fields' (options e))
                       ([], [])))"
  have "\<forall>r \<in> set ?rs. resultScore r \<noteq> NaN"
    using assms(2) by auto
  then have "sorted_wrt (\<lambda>a b. \<not> jgt (resultScore b) (resultScore a)) (sortByScore ?rs)"
    by (rule sortByScore_sorted)
  then show ?thesis
    using assms(1)
    by (simp add: search_def searchRun_def Let_def assemble_def sorted_wrt_filter)
qed

text \<open>
  C6 fails on an engine in which a document was added again without its text. The
  documents \<open>/x\<close>, \<open>/y\<close>, \<open>/z\<close> hold the term \<open>foo\<close>; the stored length of \<open>/y\<close> is \<open>0\<close>, so
  its score is \<open>0 / 0 = NaN\<close>, every comparison with it in the sort returns \<open>NaN\<close>, and
  the list stays in the order of the result map. The query \<open>foo\<close> returns \<open>/x\<close> before
  \<open>/z\<close>, though the score of \<open>/z\<close> is the greater one.
\<close>

theorem search_not_sorted:
  "map resultId (search exampleHost readdedEngine (units ''foo'') None) = [units ''/x'', units ''/z'']
   \<and> map resultScore (search exampleHost readdedEngine (units ''foo'') None) =
       [Fin (ln (10 / 7) * (3 / 16) + 33 / 10), Fin (ln (10 / 7) * (3 / 16) + 11 / 2)]
   \<and> jgt (Fin (ln (10 / 7) * (3 / 16) + 11 / 2)) (Fin (ln (10 / 7) * (3 / 16) + 33 / 10))"
proof -
  have "0 < ln (10 / 7 :: real)"
    by simp
  then have "0 < 12 + 15 * ln (10 / 7 :: real) / 8" "0 < 34 + 15 * ln (10 / 7 :: real) / 8"
    by linarith+
  then show ?thesis
    by (simp add: search_def searchRun_def readdedEngine_state rankedOptions_def
          readdedEngine_results assemble_def sortByScore_def compareScores_def jsub_def)
qed

end
